theory Spec2Isabelle
  imports Complex_Main "HOL-Library.Word" "HOL-Library.Log_Nat"
begin

section \<open>Self-play game driver of \<^verbatim>\<open>src/selfplay/game.cc\<close>\<close>

text \<open>
  The development embeds the functions of \<^verbatim>\<open>game.cc\<close>: the book-move resolver
  \<^verbatim>\<open>ply_to_lc0_move\<close>, the stopper factory \<^verbatim>\<open>SelfPlayLimits::MakeSearchStopper\<close>
  and the driver \<^verbatim>\<open>SelfPlayGame\<close> (constructor, \<^verbatim>\<open>Play\<close>, \<^verbatim>\<open>GetMoves\<close>,
  \<^verbatim>\<open>Abort\<close>, \<^verbatim>\<open>WriteTrainingData\<close>).

  Conventions.
  \<^item> A C++ \<^verbatim>\<open>float\<close> is an IEEE 754 single-precision number, the type \<open>f32\<close> below:
    every sum, difference and quotient is rounded to the nearest single-precision
    number, and a comparison with a NaN is false.
  \<^item> \<^verbatim>\<open>uint32_t\<close> visit counts are \<^typ>\<open>32 word\<close>, \<^verbatim>\<open>static_cast<int>\<close> of one
    is \<^term>\<open>sint\<close>; the \<^verbatim>\<open>int\<close> options are bounded by their option ranges and are
    \<^typ>\<open>int\<close>.
  \<^item> A thrown \<^verbatim>\<open>Exception\<close> and a failed \<^verbatim>\<open>assert\<close> are values of the type
    \<open>error\<close>; a function that can fail returns \<open>error + 'a\<close>.
  \<^item> The classes of the chess library, of the search and of the PGN reader are declared
    in headers that are not part of \<^verbatim>\<open>game.cc\<close>. Their data is modelled by records that
    hold what \<^verbatim>\<open>game.cc\<close> reads; their operations are taken as parameters (the record
    \<open>collab\<close> below), so that every theorem holds for any implementation of them.
\<close>

subsection \<open>Squares, moves, boards and book plies\<close>

text \<open>
  \<^verbatim>\<open>lczero::BoardSquare(row, col)\<close> with its readers \<^verbatim>\<open>row()\<close> and \<^verbatim>\<open>col()\<close>.
\<close>

record BoardSquare =
  row :: int
  col :: int

datatype Promotion = Promotion_None | Promotion_Queen | Promotion_Rook
  | Promotion_Bishop | Promotion_Knight

text \<open>
  \<^verbatim>\<open>lczero::Move\<close>: the readers \<^verbatim>\<open>from()\<close>, \<^verbatim>\<open>to()\<close> and the promotion. A default
  constructed move has all bits zero: both squares are square 0, no promotion.
\<close>

record Move =
  from_sq :: BoardSquare
  to_sq :: BoardSquare
  promotion_of :: Promotion

definition Move_default :: Move where
  "Move_default =
     \<lparr>from_sq = \<lparr>row = 0, col = 0\<rparr>, to_sq = \<lparr>row = 0, col = 0\<rparr>,
      promotion_of = Promotion_None\<rparr>"

definition SetFrom :: "Move \<Rightarrow> BoardSquare \<Rightarrow> Move" where
  "SetFrom m s = m\<lparr>from_sq := s\<rparr>"

definition SetTo :: "Move \<Rightarrow> BoardSquare \<Rightarrow> Move" where
  "SetTo m s = m\<lparr>to_sq := s\<rparr>"

definition SetPromotion :: "Move \<Rightarrow> Promotion \<Rightarrow> Move" where
  "SetPromotion m p = m\<lparr>promotion_of := p\<rparr>"

text \<open>
  Modelled from the spec: \<^verbatim>\<open>Move::Mirror\<close> is declared in the chess library, which is
  not among the sources. The spec says only that it mirrors a move's coordinates to the
  other side's perspective; here both squares keep their file and row \<open>r\<close> becomes
  \<open>7 - r\<close>. The functions below call it where the source does.
\<close>

definition Mirror_sq :: "BoardSquare \<Rightarrow> BoardSquare" where
  "Mirror_sq s = s\<lparr>row := 7 - row s\<rparr>"

definition Mirror :: "Move \<Rightarrow> Move" where
  "Mirror m = m\<lparr>from_sq := Mirror_sq (from_sq m), to_sq := Mirror_sq (to_sq m)\<rparr>"

text \<open>
  \<^verbatim>\<open>lczero::ChessBoard\<close> as \<^verbatim>\<open>ply_to_lc0_move\<close> reads it: the list that
  \<^verbatim>\<open>GenerateLegalMoves()\<close> returns, and the bitboards \<^verbatim>\<open>our_knights()\<close>,
  \<^verbatim>\<open>bishops()\<close>, \<^verbatim>\<open>rooks()\<close>, \<^verbatim>\<open>queens()\<close>, \<^verbatim>\<open>our_king()\<close> and \<^verbatim>\<open>pawns()\<close>
  as sets of squares (\<^verbatim>\<open>get(square)\<close> is membership).
\<close>

record ChessBoard =
  GenerateLegalMoves :: "Move list"
  our_knights :: "BoardSquare set"
  bishops :: "BoardSquare set"
  rooks :: "BoardSquare set"
  queens :: "BoardSquare set"
  our_king :: "BoardSquare set"
  pawns :: "BoardSquare set"

text \<open>
  The PGN reader's \<^verbatim>\<open>pgn::Square\<close> (an index is negative when the notation leaves it
  out), \<^verbatim>\<open>pgn::Piece\<close> and \<^verbatim>\<open>pgn::Ply\<close>. \<open>promoted_letter\<close> is
  \<^verbatim>\<open>ply.promoted().letter()\<close>, \<open>str\<close> is \<^verbatim>\<open>ply.str()\<close>, the notation as read.
\<close>

record pgn_Square =
  colIndex :: int
  rowIndex :: int

datatype pgn_Piece = Piece_Null | Piece_Pawn | Piece_Knight | Piece_Bishop
  | Piece_Rook | Piece_Queen | Piece_King

record pgn_Ply =
  valid :: bool
  isShortCastle :: bool
  isLongCastle :: bool
  toSquare :: pgn_Square
  fromSquare :: pgn_Square
  piece :: pgn_Piece
  promotion :: bool
  promoted_letter :: char
  str :: string

datatype error = Exception string | AssertionFailed | NullSearch

subsection \<open>The move resolver \<^verbatim>\<open>ply_to_lc0_move\<close>\<close>

text \<open>
  The promotion switch (lines 82 to 98). The cases \<^verbatim>\<open>'Q'\<close>, \<^verbatim>\<open>'R'\<close> and \<^verbatim>\<open>'B'\<close>
  end in \<^verbatim>\<open>break\<close>; the case \<^verbatim>\<open>'N'\<close> has no \<^verbatim>\<open>break\<close> and runs on into
  \<^verbatim>\<open>default: assert(false)\<close>. \<open>ndebug\<close> tells whether the build defines
  \<^verbatim>\<open>NDEBUG\<close>: then \<^verbatim>\<open>assert\<close> expands to nothing, otherwise it stops the program.
\<close>

definition apply_promotion :: "bool \<Rightarrow> pgn_Ply \<Rightarrow> Move \<Rightarrow> error + Move" where
  "apply_promotion ndebug ply legal_move =
     (if promotion ply then
        (if promoted_letter ply = CHR ''Q'' then
           Inr (SetPromotion legal_move Promotion_Queen)
         else if promoted_letter ply = CHR ''R'' then
           Inr (SetPromotion legal_move Promotion_Rook)
         else if promoted_letter ply = CHR ''B'' then
           Inr (SetPromotion legal_move Promotion_Bishop)
         else if promoted_letter ply = CHR ''N'' then
           (if ndebug then Inr (SetPromotion legal_move Promotion_Knight)
            else Inl AssertionFailed)
         else
           (if ndebug then Inr legal_move else Inl AssertionFailed))
      else Inr legal_move)"

text \<open>
  The loop over the legal moves (lines 48 to 109), and the \<^verbatim>\<open>throw\<close> of line 111 when
  the loop ends without a \<^verbatim>\<open>return\<close>. The six piece flags are read at the source
  square of the move as generated, before it is mirrored; the move that is compared
  and returned is the mirrored one (the second \<^verbatim>\<open>Mirror()\<close> is commented out).
\<close>

fun resolve_loop :: "bool \<Rightarrow> pgn_Ply \<Rightarrow> ChessBoard \<Rightarrow> bool \<Rightarrow> Move list \<Rightarrow> error + Move" where
  "resolve_loop ndebug ply board mirror [] =
     Inl (Exception (''Didn't understood move: '' @ str ply))"
| "resolve_loop ndebug ply board mirror (generated # rest) =
     (let knight_move = (from_sq generated \<in> our_knights board);
          bishop_move = (from_sq generated \<in> bishops board);
          rook_move = (from_sq generated \<in> rooks board);
          queen_move = (from_sq generated \<in> queens board);
          king_move = (from_sq generated \<in> our_king board);
          pawn_move = (from_sq generated \<in> pawns board);
          legal_move = (if mirror then Mirror generated else generated)
      in
        if row (to_sq legal_move) = rowIndex (toSquare ply) \<and>
           col (to_sq legal_move) = colIndex (toSquare ply)
        then
          (if piece ply = Piece_Knight \<and> \<not> knight_move \<or>
              piece ply = Piece_Bishop \<and> \<not> bishop_move \<or>
              piece ply = Piece_Rook \<and> \<not> rook_move \<or>
              piece ply = Piece_Queen \<and> \<not> queen_move \<or>
              piece ply = Piece_King \<and> \<not> king_move \<or>
              piece ply = Piece_Pawn \<and> \<not> pawn_move
           then resolve_loop ndebug ply board mirror rest
           else if colIndex (fromSquare ply) \<ge> 0 \<and>
                   col (from_sq legal_move) \<noteq> colIndex (fromSquare ply)
           then resolve_loop ndebug ply board mirror rest
           else if rowIndex (fromSquare ply) \<ge> 0 \<and>
                   row (from_sq legal_move) \<noteq> rowIndex (fromSquare ply)
           then resolve_loop ndebug ply board mirror rest
           else apply_promotion ndebug ply legal_move)
        else resolve_loop ndebug ply board mirror rest)"

definition ply_to_lc0_move :: "bool \<Rightarrow> pgn_Ply \<Rightarrow> ChessBoard \<Rightarrow> bool \<Rightarrow> error + Move" where
  "ply_to_lc0_move ndebug ply board mirror =
     (if isShortCastle ply \<or> isLongCastle ply then
        (let m = Move_default;
             file_to = (if isShortCastle ply then 7 else 0);
             rowIndex = (if mirror then 7 else 0);
             m = SetFrom m \<lparr>row = rowIndex, col = 4\<rparr>;
             m = SetTo m \<lparr>row = rowIndex, col = file_to\<rparr>
         in Inr m)
      else resolve_loop ndebug ply board mirror (GenerateLegalMoves board))"

subsection \<open>The stopper factory \<^verbatim>\<open>SelfPlayLimits::MakeSearchStopper\<close>\<close>

text \<open>
  \<^verbatim>\<open>SelfPlayLimits\<close>: three 64-bit limits, a negative value means that the limit is
  not set. The sub-stoppers are named by their constructors; \<open>IntrinsicStopper\<close> stands
  for a stopper that \<^verbatim>\<open>PopulateIntrinsicStoppers\<close> adds later. A
  \<^verbatim>\<open>ChainedSearchStopper\<close> is the list of the stoppers added to it, in order.
\<close>

record SelfPlayLimits =
  visits :: int
  playouts :: int
  movetime :: int

datatype SearchStopper = VisitsStopper int | PlayoutsStopper int | TimeLimitStopper int
  | IntrinsicStopper nat

type_synonym ChainedSearchStopper = "SearchStopper list"

definition AddStopper :: "ChainedSearchStopper \<Rightarrow> SearchStopper \<Rightarrow> ChainedSearchStopper" where
  "AddStopper chain stopper = chain @ [stopper]"

definition MakeSearchStopper :: "SelfPlayLimits \<Rightarrow> ChainedSearchStopper" where
  "MakeSearchStopper limits =
     (let result = [];
          result = (if visits limits \<ge> 0
                    then AddStopper result (VisitsStopper (visits limits)) else result);
          result = (if playouts limits \<ge> 0
                    then AddStopper result (PlayoutsStopper (playouts limits)) else result);
          result = (if movetime limits \<ge> 0
                    then AddStopper result (TimeLimitStopper (movetime limits)) else result)
      in result)"

text \<open>
  Modelled from the spec: \<^verbatim>\<open>ChainedSearchStopper::ShouldStop\<close> is defined with the
  stoppers of the search, which are not among the sources. The spec says that the
  composite signals as soon as any configured sub-stopper signals and that an empty
  composite never signals. What one sub-stopper answers on the statistics of the search
  is the parameter \<open>signals\<close>.
\<close>

primrec ShouldStop :: "(SearchStopper \<Rightarrow> 'stats \<Rightarrow> bool) \<Rightarrow> ChainedSearchStopper \<Rightarrow> 'stats \<Rightarrow> bool" where
  "ShouldStop signals [] stats = False"
| "ShouldStop signals (x # xs) stats =
     (if signals x stats then True else ShouldStop signals xs stats)"

subsection \<open>Single-precision numbers\<close>

text \<open>
  The values of a \<^verbatim>\<open>float\<close>: a finite number, given by the rational that it denotes,
  the two infinities and NaN. The two zeros are one value: no comparison tells them
  apart, and no division of \<^verbatim>\<open>game.cc\<close> has a zero divisor.
\<close>

datatype f32 = Finite rat | PosInf | NegInf | NaN

text \<open>
  Rounding to the nearest integer, a tie to the even one; \<open>ilog2 x\<close> is the exponent
  \<open>k\<close> of a positive \<open>x\<close>, with \<open>2 ^ k \<le> x < 2 ^ (k + 1)\<close>.
\<close>

definition round_half_even :: "rat \<Rightarrow> int" where
  "round_half_even x =
     (let f = \<lfloor>x\<rfloor>; r = x - of_int f
      in if r < 1 / 2 then f else if 1 / 2 < r then f + 1 else if even f then f else f + 1)"

definition ilog2 :: "rat \<Rightarrow> int" where
  "ilog2 x =
     (case quotient_of x of (p, q) \<Rightarrow>
        let k = bitlen p - bitlen q
        in if 2 powi k \<le> x then k else k - 1)"

text \<open>
  The rounding of an exact result to single precision, to the nearest number and a tie
  to the even significand: a significand of 24 bits, numbers below \<open>2 ^ (- 126)\<close> spaced
  by \<open>2 ^ (- 149)\<close>, and an infinity when the rounded magnitude reaches \<open>2 ^ 128\<close>.
\<close>

definition rnd :: "rat \<Rightarrow> f32" where
  "rnd x =
     (if x = 0 then Finite 0
      else
        let a = \<bar>x\<bar>;
            e = max (ilog2 a - 23) (- 149);
            m = round_half_even (a / 2 powi e);
            y = of_int m * 2 powi e
        in if 2 powi 128 \<le> y then (if 0 < x then PosInf else NegInf)
           else Finite (if 0 < x then y else - y))"

text \<open>
  The operations that \<^verbatim>\<open>game.cc\<close> applies to a \<^verbatim>\<open>float\<close>: \<^verbatim>\<open>+\<close>, \<^verbatim>\<open>-\<close>, \<^verbatim>\<open>/\<close>,
  \<^verbatim>\<open><\<close> (\<^verbatim>\<open>a > b\<close> is \<open>flt b a\<close>), and \<^verbatim>\<open>std::max\<close> and \<^verbatim>\<open>std::min\<close>, which
  are \<^verbatim>\<open>(a < b) ? b : a\<close> and \<^verbatim>\<open>(b < a) ? b : a\<close>. The \<^verbatim>\<open>int\<close> literals 1, 2 and 100
  that meet a \<^verbatim>\<open>float\<close> are converted to it without rounding, like the literals
  \<^verbatim>\<open>1.0f\<close> and \<^verbatim>\<open>2.0f\<close>: they are \<open>Finite 1\<close>, \<open>Finite 2\<close> and \<open>Finite 100\<close>.
\<close>

fun fneg :: "f32 \<Rightarrow> f32" where
  "fneg (Finite x) = Finite (- x)"
| "fneg PosInf = NegInf"
| "fneg NegInf = PosInf"
| "fneg NaN = NaN"

fun fadd :: "f32 \<Rightarrow> f32 \<Rightarrow> f32" where
  "fadd (Finite x) (Finite y) = rnd (x + y)"
| "fadd (Finite x) PosInf = PosInf"
| "fadd (Finite x) NegInf = NegInf"
| "fadd PosInf (Finite y) = PosInf"
| "fadd PosInf PosInf = PosInf"
| "fadd PosInf NegInf = NaN"
| "fadd NegInf (Finite y) = NegInf"
| "fadd NegInf PosInf = NaN"
| "fadd NegInf NegInf = NegInf"
| "fadd NaN b = NaN"
| "fadd a NaN = NaN"

definition fsub :: "f32 \<Rightarrow> f32 \<Rightarrow> f32" where
  "fsub a b = fadd a (fneg b)"

fun fdiv :: "f32 \<Rightarrow> f32 \<Rightarrow> f32" where
  "fdiv (Finite x) (Finite y) =
     (if y = 0 then (if x = 0 then NaN else if 0 < x then PosInf else NegInf)
      else rnd (x / y))"
| "fdiv (Finite x) PosInf = Finite 0"
| "fdiv (Finite x) NegInf = Finite 0"
| "fdiv PosInf (Finite y) = (if 0 \<le> y then PosInf else NegInf)"
| "fdiv NegInf (Finite y) = (if 0 \<le> y then NegInf else PosInf)"
| "fdiv PosInf PosInf = NaN"
| "fdiv PosInf NegInf = NaN"
| "fdiv NegInf PosInf = NaN"
| "fdiv NegInf NegInf = NaN"
| "fdiv NaN b = NaN"
| "fdiv a NaN = NaN"

fun flt :: "f32 \<Rightarrow> f32 \<Rightarrow> bool" where
  "flt (Finite x) (Finite y) = (x < y)"
| "flt (Finite x) PosInf = True"
| "flt (Finite x) NegInf = False"
| "flt PosInf b = False"
| "flt NegInf (Finite y) = True"
| "flt NegInf PosInf = True"
| "flt NegInf NegInf = False"
| "flt NaN b = False"
| "flt a NaN = False"

definition fmax :: "f32 \<Rightarrow> f32 \<Rightarrow> f32" where
  "fmax a b = (if flt a b then b else a)"

definition fmin :: "f32 \<Rightarrow> f32 \<Rightarrow> f32" where
  "fmin a b = (if flt b a then b else a)"

subsection \<open>The state of a self-play game\<close>

datatype GameResult = UNDECIDED | WHITE_WON | BLACK_WON | DRAW

text \<open>
  A training record as \<^verbatim>\<open>game.cc\<close> uses it: the side-to-move byte, the signed result
  byte, and the rest of the record, which \<^verbatim>\<open>game.cc\<close> never reads.
\<close>

record 'x V4TrainingData =
  side_to_move :: "8 word"
  result :: "8 word"
  features :: 'x

record UciOptions =
  ReuseTree :: bool
  ResignPercentage :: f32
  ResignWDLStyle :: bool
  ResignEarliestMove :: int
  MinimumAllowedVisits :: int
  UCI_Chess960 :: bool

text \<open>
  \<^verbatim>\<open>PlayerOptions\<close>: the options and the limits. The three callbacks are effects; the
  one that \<^verbatim>\<open>game.cc\<close> calls itself, \<^verbatim>\<open>discarded_callback\<close>, is modelled by the
  log \<open>discarded_calls\<close> of the game. The network and the cache are only handed on to the
  search.
\<close>

record PlayerOptions =
  uci_options :: UciOptions
  search_limits :: SelfPlayLimits

text \<open>
  The responder handed to the search: the callbacks of side \<open>idx\<close>, possibly wrapped in
  the adapter that remaps castling to the legacy notation.
\<close>

datatype Responder = CallbackUciResponder nat | Chess960Transformer Responder ChessBoard

text \<open>
  Modelled from the spec: the class \<^verbatim>\<open>Search\<close> is declared with the search, which is
  not among the sources. The record holds what \<^verbatim>\<open>game.cc\<close> reads of a search that has
  run: \<^verbatim>\<open>GetTotalPlayouts()\<close>, \<^verbatim>\<open>GetBestEval()\<close> (value and draw estimate), and
  \<^verbatim>\<open>GetBestMove().first\<close>, which stays the same until \<^verbatim>\<open>ResetBestMove()\<close> makes the
  search choose again: \<open>best_moves s k\<close> is its answer after \<open>k\<close> resets.
  \<open>stop_requested\<close> records a call of \<^verbatim>\<open>Search::Abort()\<close>.
\<close>

record Search =
  total_playouts :: "64 word"
  best_eval :: "f32 \<times> f32"
  best_moves :: "nat \<Rightarrow> Move"
  resets :: nat
  stop_requested :: bool

text \<open>
  Modelled from the spec: \<^verbatim>\<open>Search::GetBestMove\<close>, the best move that the search
  reports.
\<close>

definition GetBestMove :: "Search \<Rightarrow> Move" where
  "GetBestMove s = best_moves s (resets s)"

text \<open>
  Modelled from the spec: \<^verbatim>\<open>Search::ResetBestMove\<close> asks the search to compute its
  best move again.
\<close>

definition ResetBestMove :: "Search \<Rightarrow> Search" where
  "ResetBestMove s = s\<lparr>resets := Suc (resets s)\<rparr>"

text \<open>
  Modelled from the spec: \<^verbatim>\<open>Search::Abort\<close> delivers the cancellation to the search
  through the search's own channel. It records the request; the playouts, the
  evaluation and the best moves that the search reports stay as they are.
\<close>

definition Search_Abort :: "Search \<Rightarrow> Search" where
  "Search_Abort s = s\<lparr>stop_requested := True\<rparr>"

text \<open>An entry of the opening line: the white and the black half-move.\<close>

record pgn_Move =
  white :: pgn_Ply
  black :: pgn_Ply

text \<open>
  The collaborators, as parameters. \<open>'tree\<close> is \<^verbatim>\<open>NodeTree\<close>, \<open>'hist\<close> is
  \<^verbatim>\<open>PositionHistory\<close>, \<open>'pos\<close> is \<^verbatim>\<open>Position\<close>.
  \<^item> \<open>ResetToPosition fen moves\<close>: a new tree reset to the position.
  \<^item> \<open>Edges t as_opponent\<close>: for every edge of \<^verbatim>\<open>GetCurrentHead()->Edges()\<close>, in
    order, its \<^verbatim>\<open>GetMove(as_opponent)\<close> and its \<^verbatim>\<open>GetN()\<close>.
  \<^item> \<open>ParentMoves t\<close>: the moves \<^verbatim>\<open>GetParent()->GetEdgeToNode(node)->GetMove()\<close>
    met on the way from the current head up to the game-begin node, head first.
  \<^item> \<open>HeadBoard t\<close>: \<^verbatim>\<open>HeadPosition().GetBoard()\<close>; \<open>LastBoard h\<close>:
    \<^verbatim>\<open>Last().GetBoard()\<close>.
  \<^item> \<open>NextPosition pos move\<close>: \<^verbatim>\<open>Position(pos, move)\<close>; \<open>GetLegacyMove pos move\<close>:
    \<^verbatim>\<open>pos.GetBoard().GetLegacyMove(move)\<close>.
  \<^item> \<open>RunBlocking t idx options responder stoppers threads\<close>: the search of side
    \<open>idx\<close> built on the tree with the responder and the stoppers, and run to its end;
    it returns the tree as the search leaves it, and the search.
  \<^item> \<open>NDEBUG\<close>: whether the build disables \<^verbatim>\<open>assert\<close>.
\<close>

record ('tree, 'hist, 'pos, 'x) collab =
  ResetToPosition :: "string \<Rightarrow> Move list \<Rightarrow> 'tree"
  MakeMove :: "'tree \<Rightarrow> Move \<Rightarrow> 'tree"
  TrimTreeAtHead :: "'tree \<Rightarrow> 'tree"
  GetPlyCount :: "'tree \<Rightarrow> nat"
  IsBlackToMove :: "'tree \<Rightarrow> bool"
  GetPositionHistory :: "'tree \<Rightarrow> 'hist"
  HeadBoard :: "'tree \<Rightarrow> ChessBoard"
  Edges :: "'tree \<Rightarrow> bool \<Rightarrow> (Move \<times> 32 word) list"
  ParentMoves :: "'tree \<Rightarrow> Move list"
  GetV4TrainingData :: "'tree \<Rightarrow> GameResult \<Rightarrow> 'hist \<Rightarrow> f32 \<Rightarrow> f32 \<Rightarrow> 'x V4TrainingData"
  ComputeGameResult :: "'hist \<Rightarrow> GameResult"
  GetLength :: "'hist \<Rightarrow> nat"
  Append :: "'hist \<Rightarrow> Move \<Rightarrow> 'hist"
  LastBoard :: "'hist \<Rightarrow> ChessBoard"
  Starting :: "'hist \<Rightarrow> 'pos"
  NextPosition :: "'pos \<Rightarrow> Move \<Rightarrow> 'pos"
  PosIsBlackToMove :: "'pos \<Rightarrow> bool"
  GetLegacyMove :: "'pos \<Rightarrow> Move \<Rightarrow> Move"
  PopulateIntrinsicStoppers :: "ChainedSearchStopper \<Rightarrow> UciOptions \<Rightarrow> ChainedSearchStopper"
  RunBlocking :: "'tree \<Rightarrow> nat \<Rightarrow> PlayerOptions \<Rightarrow> Responder \<Rightarrow> ChainedSearchStopper \<Rightarrow> int
                  \<Rightarrow> 'tree \<times> Search"
  NDEBUG :: bool

text \<open>
  \<^verbatim>\<open>SelfPlayGame\<close>. A member keeps its name without the trailing underscore, which
  a constant's name cannot have. The two \<^verbatim>\<open>shared_ptr<NodeTree>\<close> of \<^verbatim>\<open>tree_\<close> are addresses
  into \<open>heap\<close>, the store of the tree objects, so that a shared tree is one object with
  two pointers to it. \<open>search\<close> is \<open>None\<close> for a null \<^verbatim>\<open>search_\<close>. \<open>discarded_calls\<close>
  logs every call of a side's \<^verbatim>\<open>discarded_callback\<close> with its argument.
\<close>

record ('tree, 'x) SelfPlayGame =
  options :: "PlayerOptions \<times> PlayerOptions"
  tree :: "nat \<times> nat"
  heap :: "nat \<Rightarrow> 'tree"
  search :: "Search option"
  abort :: bool
  game_result :: GameResult
  chess960 :: bool
  min_eval :: "f32 \<times> f32"
  max_eval :: "f32 \<times> f32 \<times> f32"
  move_count :: int
  nodes_total :: "64 word"
  training_data :: "'x V4TrainingData list"
  discarded_calls :: "(nat \<times> Move list) list"

text \<open>Arrays of two elements, read and written at index 0 or 1.\<close>

definition at2 :: "'a \<times> 'a \<Rightarrow> nat \<Rightarrow> 'a" where
  "at2 p i = (if i = 0 then fst p else snd p)"

definition upd2 :: "'a \<times> 'a \<Rightarrow> nat \<Rightarrow> 'a \<Rightarrow> 'a \<times> 'a" where
  "upd2 p i v = (if i = 0 then (v, snd p) else (fst p, v))"

definition tree_at :: "('tree, 'x) SelfPlayGame \<Rightarrow> nat \<Rightarrow> 'tree" where
  "tree_at g idx = heap g (at2 (tree g) idx)"

definition tree_update :: "('tree, 'x) SelfPlayGame \<Rightarrow> nat \<Rightarrow> ('tree \<Rightarrow> 'tree) \<Rightarrow> ('tree, 'x) SelfPlayGame" where
  "tree_update g idx f = g\<lparr>heap := (heap g)(at2 (tree g) idx := f (tree_at g idx))\<rparr>"

definition uci :: "('tree, 'x) SelfPlayGame \<Rightarrow> nat \<Rightarrow> UciOptions" where
  "uci g idx = uci_options (at2 (options g) idx)"

subsection \<open>Constructor, \<^verbatim>\<open>GetMoves\<close>, \<^verbatim>\<open>Abort\<close> and the post-game functions\<close>

text \<open>
  The constructor (lines 148 to 173). \<open>whiteNonPawns\<close> and \<open>blackNonPawns\<close> are the two
  strings as \<^verbatim>\<open>random_shuffle\<close> leaves them. The members that the constructor does
  not name start at the values of their declarations in the class, which is not among
  the sources: no search, no abort, an undecided result, the minima at 1 and the maxima
  at 0, counters at 0, no training data. No property below depends on these values.
\<close>

definition MakeMove_both :: "('tree, 'hist, 'pos, 'x) collab \<Rightarrow> ('tree, 'x) SelfPlayGame \<Rightarrow> Move \<Rightarrow> ('tree, 'x) SelfPlayGame" where
  "MakeMove_both env g m =
     (let g = tree_update g 0 (\<lambda>t. MakeMove env t m)
      in if fst (tree g) \<noteq> snd (tree g) then tree_update g 1 (\<lambda>t. MakeMove env t m) else g)"

definition SelfPlayGame_new :: "('tree, 'hist, 'pos, 'x) collab \<Rightarrow> string \<Rightarrow> string \<Rightarrow> PlayerOptions \<Rightarrow> PlayerOptions \<Rightarrow> bool \<Rightarrow> Move list \<Rightarrow> ('tree, 'x) SelfPlayGame" where
  "SelfPlayGame_new env whiteNonPawns blackNonPawns player1 player2 shared_tree opening =
     (let startPosFen = whiteNonPawns @ ''/pppppppp/8/8/8/8/PPPPPPPP/'' @ blackNonPawns
                        @ '' w - - 0 1'';
          g = \<lparr>options = (player1, player2),
               tree = (0, if shared_tree then 0 else 1),
               heap = (\<lambda>a. ResetToPosition env startPosFen []),
               search = None,
               abort = False,
               game_result = UNDECIDED,
               chess960 = (UCI_Chess960 (uci_options player1) \<or> UCI_Chess960 (uci_options player2)),
               min_eval = (Finite 1, Finite 1),
               max_eval = (Finite 0, Finite 0, Finite 0),
               move_count = 0,
               nodes_total = 0,
               training_data = [],
               discarded_calls = []\<rparr>
      in foldl (MakeMove_both env) g opening)"

text \<open>
  \<^verbatim>\<open>GetMoves\<close> (lines 336 to 354). The first loop pushes the moves met from the head up
  to the game-begin node; the second loop takes them from the back of the vector, so it
  runs through them in the reverse order.
\<close>

fun GetMoves_loop :: "('tree, 'hist, 'pos, 'x) collab \<Rightarrow> bool \<Rightarrow> 'pos \<Rightarrow> Move list \<Rightarrow> Move list \<Rightarrow> Move list" where
  "GetMoves_loop env c960 pos [] res = res"
| "GetMoves_loop env c960 pos (move # rest) res =
     (let move = (if \<not> c960 then GetLegacyMove env pos move else move);
          pos = NextPosition env pos move;
          move = (if \<not> PosIsBlackToMove env pos then Mirror move else move)
      in GetMoves_loop env c960 pos rest (res @ [move]))"

definition GetMoves :: "('tree, 'hist, 'pos, 'x) collab \<Rightarrow> ('tree, 'x) SelfPlayGame \<Rightarrow> Move list" where
  "GetMoves env g =
     (let moves = ParentMoves env (tree_at g 0);
          pos = Starting env (GetPositionHistory env (tree_at g 0))
      in GetMoves_loop env (chess960 g) pos (rev moves) [])"

text \<open>\<^verbatim>\<open>Abort\<close> (lines 373 to 377), called by another thread.\<close>

definition Abort :: "('tree, 'x) SelfPlayGame \<Rightarrow> ('tree, 'x) SelfPlayGame" where
  "Abort g =
     (let g = g\<lparr>abort := True\<rparr>
      in case search g of
           Some s \<Rightarrow> g\<lparr>search := Some (Search_Abort s)\<rparr>
         | None \<Rightarrow> g)"

text \<open>\<^verbatim>\<open>GetWorstEvalForWinnerOrDraw\<close> (lines 356 to 371).\<close>

definition GetWorstEvalForWinnerOrDraw :: "('tree, 'x) SelfPlayGame \<Rightarrow> f32" where
  "GetWorstEvalForWinnerOrDraw g =
     (case max_eval g of (max0, max1, max2) \<Rightarrow>
        if ResignWDLStyle (uci g 0) then
          (if game_result g = WHITE_WON then fmax max1 max2
           else if game_result g = BLACK_WON then fmax max1 max0
           else fmax max2 max0)
        else if game_result g = WHITE_WON then at2 (min_eval g) 0
        else if game_result g = BLACK_WON then at2 (min_eval g) 1
        else fmin (at2 (min_eval g) 0) (at2 (min_eval g) 1))"

text \<open>
  \<^verbatim>\<open>WriteTrainingData\<close> (lines 379 to 391). The loop variable is a copy of the stored
  record; the writer is the list of the records written to it so far.
\<close>

definition patch_chunk :: "GameResult \<Rightarrow> 'x V4TrainingData \<Rightarrow> 'x V4TrainingData" where
  "patch_chunk res chunk =
     (let black_to_move = (side_to_move chunk \<noteq> 0)
      in if res = WHITE_WON then chunk\<lparr>result := (if black_to_move then - 1 else 1)\<rparr>
         else if res = BLACK_WON then chunk\<lparr>result := (if black_to_move then 1 else - 1)\<rparr>
         else chunk\<lparr>result := 0\<rparr>)"

definition WriteChunk :: "'x V4TrainingData list \<Rightarrow> 'x V4TrainingData \<Rightarrow> 'x V4TrainingData list" where
  "WriteChunk writer chunk = writer @ [chunk]"

definition WriteTrainingData :: "('tree, 'x) SelfPlayGame \<Rightarrow> 'x V4TrainingData list \<Rightarrow> 'x V4TrainingData list" where
  "WriteTrainingData g writer =
     foldl (\<lambda>w chunk. WriteChunk w (patch_chunk (game_result g) chunk)) writer (training_data g)"

subsection \<open>\<^verbatim>\<open>Play\<close>\<close>

text \<open>
  The arguments of \<^verbatim>\<open>Play\<close> (the tablebase is only handed on to the search), and its
  local variables that live across the iterations of the ply loop: \<open>blacks_move\<close> and
  the iterator \<open>openingMove\<close>, which is the rest of the opening line from its position on.
\<close>

record play_args =
  white_threads :: int
  black_threads :: int
  training :: bool
  enable_resign :: bool

record ('tree, 'x) play_state =
  game :: "('tree, 'x) SelfPlayGame"
  blacks_move :: bool
  openingMove :: "pgn_Move list"

datatype 'a step = Break 'a | Continue 'a

text \<open>
  \<^verbatim>\<open>Abort()\<close> runs on another thread. \<^verbatim>\<open>Play\<close> reads the flag at the head of the ply
  loop (line 184), under the lock (line 202) and after the search (line 228). Where a
  call of \<^verbatim>\<open>Abort()\<close> falls between these reads during one iteration is an input of
  the model: before the lock is taken, while the search runs, or after line 228.
\<close>

datatype AbortPoint = BeforeLock | DuringSearch | AfterSearch

definition idx_of :: "bool \<Rightarrow> nat" where
  "idx_of blacks_turn = (if blacks_turn then 1 else 0)"

text \<open>
  \<^verbatim>\<open>inBook\<close> (lines 192 to 195) together with the book ply that line 318 reads when it
  holds: \<open>Some\<close> of the ply of the side to move when the iterator is not at the end and
  that ply is valid. Neither the iterator nor the side to move changes between the two
  lines.
\<close>

definition inBook :: "('tree, 'x) play_state \<Rightarrow> pgn_Ply option" where
  "inBook st =
     (case openingMove st of
        [] \<Rightarrow> None
      | entry # _ \<Rightarrow>
          let pgn_move = (if blacks_move st then black entry else white entry)
          in if valid pgn_move then Some pgn_move else None)"

text \<open>
  Lines 185 to 198 of one iteration: the game result, which ends the loop when it is
  decided, and the trim of the tree of the side to move.
\<close>

definition ply_head :: "('tree, 'hist, 'pos, 'x) collab \<Rightarrow> ('tree, 'x) play_state \<Rightarrow> ('tree, 'x) SelfPlayGame step" where
  "ply_head env st =
     (let g = game st;
          g = g\<lparr>game_result := ComputeGameResult env (GetPositionHistory env (tree_at g 0))\<rparr>
      in if game_result g \<noteq> UNDECIDED then Break g
         else
           let idx = idx_of (blacks_move st)
           in Continue (if \<not> ReuseTree (uci g idx) then tree_update g idx (TrimTreeAtHead env)
                        else g))"

text \<open>
  Lines 203 to 225: the stoppers, the responder, wrapped in the adapter when the flag
  of the game is not set, and the search that is built with them on the tree of the
  side to move and run.
\<close>

definition new_search :: "('tree, 'hist, 'pos, 'x) collab \<Rightarrow> play_args \<Rightarrow> bool \<Rightarrow> ('tree, 'x) SelfPlayGame \<Rightarrow> 'tree \<times> Search" where
  "new_search env args blacks_turn g =
     (let idx = idx_of blacks_turn;
          stoppers = MakeSearchStopper (search_limits (at2 (options g) idx));
          stoppers = PopulateIntrinsicStoppers env stoppers (uci g idx);
          responder = CallbackUciResponder idx;
          responder = (if \<not> chess960 g
                       then Chess960Transformer responder (HeadBoard env (tree_at g idx))
                       else responder)
      in RunBlocking env (tree_at g idx) idx (at2 (options g) idx) responder stoppers
           (if blacks_turn then black_threads args else white_threads args))"

text \<open>
  Lines 185 to 228 of one iteration, with the two reads of the flag that follow the
  loop head: under the lock and after the search.
\<close>

definition ply_begin :: "('tree, 'hist, 'pos, 'x) collab \<Rightarrow> play_args \<Rightarrow> AbortPoint option \<Rightarrow> ('tree, 'x) play_state \<Rightarrow> ('tree, 'x) play_state step" where
  "ply_begin env args ev st =
     (case ply_head env st of
        Break g \<Rightarrow> Break (st\<lparr>game := g\<rparr>)
      | Continue g \<Rightarrow>
          let idx = idx_of (blacks_move st);
              g = (if ev = Some BeforeLock then Abort g else g)
          in if abort g then Break (st\<lparr>game := g\<rparr>)
             else
               let ran = new_search env args (blacks_move st) g;
                   g = tree_update g idx (\<lambda>t. fst ran);
                   g = g\<lparr>search := Some (snd ran)\<rparr>;
                   g = (if ev = Some DuringSearch then Abort g else g);
                   g = g\<lparr>move_count := move_count g + 1\<rparr>;
                   g = g\<lparr>nodes_total := nodes_total g + total_playouts (snd ran)\<rparr>
               in if abort g then Break (st\<lparr>game := g\<rparr>) else Continue (st\<lparr>game := g\<rparr>))"

text \<open>
  The numbers of lines 240 to 246: the evaluation normalized to \<^verbatim>\<open>eval\<close>, and the win
  and loss estimates \<^verbatim>\<open>best_w\<close> and \<^verbatim>\<open>best_l\<close> of the side to move, from the pair
  \<open>best\<close> of the value and the draw estimate that \<^verbatim>\<open>GetBestEval()\<close> returns.
\<close>

definition eval_of :: "f32 \<times> f32 \<Rightarrow> f32" where
  "eval_of best = fdiv (fadd (fst best) (Finite 1)) (Finite 2)"

definition best_w_of :: "f32 \<times> f32 \<Rightarrow> f32" where
  "best_w_of best = fdiv (fsub (fadd (fst best) (Finite 1)) (snd best)) (Finite 2)"

definition best_l_of :: "f32 \<times> f32 \<Rightarrow> f32" where
  "best_l_of best = fsub (best_w_of best) (fst best)"

text \<open>The resignation test of lines 250 to 278: \<open>Some r\<close> sets the result and breaks.\<close>

definition resign_check :: "UciOptions \<Rightarrow> bool \<Rightarrow> int \<Rightarrow> bool \<Rightarrow> f32 \<Rightarrow> f32 \<Rightarrow> f32 \<Rightarrow> f32 \<Rightarrow> GameResult option" where
  "resign_check opts resign_enabled move_number blacks_turn eval best_w best_d best_l =
     (if resign_enabled \<and> move_number \<ge> ResignEarliestMove opts then
        (let resignpct = fdiv (ResignPercentage opts) (Finite 100)
         in if ResignWDLStyle opts then
              (let threshold = fsub (Finite 1) resignpct
               in if flt threshold best_w then Some (if blacks_turn then BLACK_WON else WHITE_WON)
                  else if flt threshold best_l then Some (if blacks_turn then WHITE_WON else BLACK_WON)
                  else if flt threshold best_d then Some DRAW
                  else None)
            else if flt eval resignpct then Some (if blacks_turn then WHITE_WON else BLACK_WON)
            else None)
      else None)"

text \<open>
  One iteration of the retry loop (lines 281 to 313). The \<^verbatim>\<open>for\<close> loop over the edges
  keeps the largest visit count in \<open>max_n\<close> and the count of the edge of the move in
  \<open>cur_n\<close>.
\<close>

definition scan_edges :: "(Move \<times> 32 word) list \<Rightarrow> Move \<Rightarrow> 32 word \<times> 32 word" where
  "scan_edges edges move =
     foldl (\<lambda>(max_n, cur_n) (edge_move, edge_n).
              (if edge_n > max_n then edge_n else max_n,
               if edge_move = move then edge_n else cur_n))
           (0, 0) edges"

datatype 'g retry = Accept Move | Retry 'g | Fault error

definition retry_iter :: "('tree, 'hist, 'pos, 'x) collab \<Rightarrow> nat \<Rightarrow> ('tree, 'x) SelfPlayGame \<Rightarrow> ('tree, 'x) SelfPlayGame retry" where
  "retry_iter env idx g =
     (case search g of
        None \<Rightarrow> Fault NullSearch
      | Some s \<Rightarrow>
          let move = GetBestMove s;
              t = tree_at g idx;
              counts = scan_edges (Edges env t (IsBlackToMove env t)) move;
              max_n = fst counts;
              cur_n = snd counts
          in if cur_n = max_n \<or> sint cur_n \<ge> MinimumAllowedVisits (uci g idx) then Accept move
             else
               let history_copy = GetPositionHistory env t;
                   move_for_history = (if IsBlackToMove env t then Mirror move else move);
                   history_copy = Append env history_copy move_for_history;
                   g = (if ComputeGameResult env history_copy = UNDECIDED
                        then g\<lparr>discarded_calls :=
                                 discarded_calls g @ [(idx, GetMoves env g @ [move])]\<rparr>
                        else g);
                   g = g\<lparr>search := Some (ResetBestMove s)\<rparr>
               in Retry g)"

text \<open>
  The loop itself is \<^verbatim>\<open>while (true)\<close>: it ends only by the \<^verbatim>\<open>break\<close> of an accepted
  move, and \<open>None\<close> is the loop that never ends.
\<close>

partial_function (option) retry_loop :: "('tree, 'hist, 'pos, 'x) collab \<Rightarrow> nat \<Rightarrow> ('tree, 'x) SelfPlayGame \<Rightarrow> (error + Move \<times> ('tree, 'x) SelfPlayGame) option" where
  "retry_loop env idx g =
     (case retry_iter env idx g of
        Accept move \<Rightarrow> Some (Inr (move, g))
      | Fault e \<Rightarrow> Some (Inl e)
      | Retry g' \<Rightarrow> retry_loop env idx g')"

text \<open>
  Lines 316 to 332: the book move or the move of the search, the step of the iterator,
  the move made on both trees (once when they are one object).
\<close>

definition ply_commit :: "('tree, 'hist, 'pos, 'x) collab \<Rightarrow> ('tree, 'x) play_state \<Rightarrow> ('tree, 'x) SelfPlayGame \<Rightarrow> Search \<Rightarrow> error + ('tree, 'x) play_state" where
  "ply_commit env st g s =
     (let idx = idx_of (blacks_move st);
          chosen =
            (case inBook st of
               Some pgn_move \<Rightarrow>
                 ply_to_lc0_move (NDEBUG env) pgn_move
                   (LastBoard env (GetPositionHistory env (tree_at g idx))) (blacks_move st)
             | None \<Rightarrow> Inr (GetBestMove s))
      in case chosen of
           Inl e \<Rightarrow> Inl e
         | Inr move \<Rightarrow>
             Inr \<lparr>game = MakeMove_both env g move,
                  blacks_move = \<not> blacks_move st,
                  openingMove = (if openingMove st \<noteq> [] \<and> blacks_move st
                                 then tl (openingMove st) else openingMove st)\<rparr>)"

text \<open>
  Lines 280 to 332 of one iteration: the retry loop, and the commit of the move once
  the loop has accepted one.
\<close>

definition ply_select :: "('tree, 'hist, 'pos, 'x) collab \<Rightarrow> ('tree, 'x) play_state \<Rightarrow> ('tree, 'x) SelfPlayGame \<Rightarrow> (error + ('tree, 'x) play_state step) option" where
  "ply_select env st g =
     (case retry_loop env (idx_of (blacks_move st)) g of
        None \<Rightarrow> None
      | Some (Inl e) \<Rightarrow> Some (Inl e)
      | Some (Inr (move, g)) \<Rightarrow>
          (case search g of
             None \<Rightarrow> Some (Inl NullSearch)
           | Some s \<Rightarrow>
               (case ply_commit env st g s of
                  Inl e \<Rightarrow> Some (Inl e)
                | Inr st \<Rightarrow> Some (Inr (Continue st)))))"

text \<open>
  Lines 230 to 249 as they change the members: the training record is appended, the
  minimum of the side and the three maxima are updated.
\<close>

definition note_eval :: "('tree, 'hist, 'pos, 'x) collab \<Rightarrow> play_args \<Rightarrow> bool \<Rightarrow> ('tree, 'x) SelfPlayGame \<Rightarrow> Search \<Rightarrow> ('tree, 'x) SelfPlayGame" where
  "note_eval env args blacks_turn g s =
     (let idx = idx_of blacks_turn;
          best_q = fst (best_eval s);
          best_d = snd (best_eval s);
          g = (if training args
               then g\<lparr>training_data := training_data g @
                        [GetV4TrainingData env (tree_at g idx) UNDECIDED
                           (GetPositionHistory env (tree_at g idx)) best_q best_d]\<rparr>
               else g);
          eval = eval_of (best_eval s);
          g = (if flt eval (at2 (min_eval g) idx)
               then g\<lparr>min_eval := upd2 (min_eval g) idx eval\<rparr> else g);
          best_w = best_w_of (best_eval s);
          best_l = best_l_of (best_eval s)
      in case max_eval g of (max0, max1, max2) \<Rightarrow>
           g\<lparr>max_eval := (fmax max0 (if blacks_turn then best_l else best_w),
                           fmax max1 best_d,
                           fmax max2 (if blacks_turn then best_w else best_l))\<rparr>)"

text \<open>
  Lines 230 to 332 of one iteration, which follow the last read of the flag: the
  evaluation is noted, then come the resignation, the retry loop and the commit.
\<close>

definition ply_finish :: "('tree, 'hist, 'pos, 'x) collab \<Rightarrow> play_args \<Rightarrow> ('tree, 'x) play_state \<Rightarrow> (error + ('tree, 'x) play_state step) option" where
  "ply_finish env args st =
     (let g = game st; idx = idx_of (blacks_move st)
      in case search g of
           None \<Rightarrow> Some (Inl NullSearch)
         | Some s \<Rightarrow>
             (let eval = eval_of (best_eval s);
                  move_number = int (GetLength env (GetPositionHistory env (tree_at g 0)) div 2) + 1;
                  best_w = best_w_of (best_eval s);
                  best_d = snd (best_eval s);
                  best_l = best_l_of (best_eval s);
                  g = note_eval env args (blacks_move st) g s
              in case resign_check (uci g idx) (enable_resign args) move_number (blacks_move st)
                        eval best_w best_d best_l of
                   Some r \<Rightarrow> Some (Inr (Break (st\<lparr>game := g\<lparr>game_result := r\<rparr>\<rparr>)))
                 | None \<Rightarrow> ply_select env st g))"

text \<open>
  One iteration after the loop head, with the place \<open>ev\<close> where a call of
  \<^verbatim>\<open>Abort()\<close> falls, if one does.
\<close>

definition play_ply :: "('tree, 'hist, 'pos, 'x) collab \<Rightarrow> play_args \<Rightarrow> AbortPoint option \<Rightarrow> ('tree, 'x) play_state \<Rightarrow> (error + ('tree, 'x) play_state step) option" where
  "play_ply env args ev st =
     (case ply_begin env args ev st of
        Break st \<Rightarrow> Some (Inr (Break st))
      | Continue st \<Rightarrow>
          ply_finish env args (if ev = Some AfterSearch then st\<lparr>game := Abort (game st)\<rparr> else st))"

text \<open>
  The ply loop \<^verbatim>\<open>while (!abort_)\<close>; \<open>aborts n\<close> is the place of a call of \<^verbatim>\<open>Abort()\<close>
  during iteration \<open>n\<close>. \<open>None\<close> is the game that never ends, \<open>Inl\<close> the exception that
  leaves \<^verbatim>\<open>Play\<close>.
\<close>

partial_function (option) Play_loop :: "('tree, 'hist, 'pos, 'x) collab \<Rightarrow> play_args \<Rightarrow> (nat \<Rightarrow> AbortPoint option) \<Rightarrow> nat \<Rightarrow> ('tree, 'x) play_state \<Rightarrow> (error + ('tree, 'x) play_state) option" where
  "Play_loop env args aborts n st =
     (if abort (game st) then Some (Inr st)
      else case play_ply env args (aborts n) st of
             None \<Rightarrow> None
           | Some (Inl e) \<Rightarrow> Some (Inl e)
           | Some (Inr (Break st')) \<Rightarrow> Some (Inr st')
           | Some (Inr (Continue st')) \<Rightarrow> Play_loop env args aborts (Suc n) st')"

text \<open>
  \<^verbatim>\<open>Play\<close> (lines 175 to 334): the local variables as lines 178 to 181 set them, the
  ply loop, and the game as the loop leaves it.
\<close>

definition Play_start :: "('tree, 'hist, 'pos, 'x) collab \<Rightarrow> pgn_Move list option \<Rightarrow> ('tree, 'x) SelfPlayGame \<Rightarrow> ('tree, 'x) play_state" where
  "Play_start env opening g =
     \<lparr>game = g,
      blacks_move = (GetPlyCount env (tree_at g 0) mod 2 = 1),
      openingMove = (case opening of Some moves \<Rightarrow> moves | None \<Rightarrow> [])\<rparr>"

definition Play_end :: "(error + ('tree, 'x) play_state) option \<Rightarrow> (error + ('tree, 'x) SelfPlayGame) option" where
  "Play_end r =
     (case r of
        None \<Rightarrow> None
      | Some (Inl e) \<Rightarrow> Some (Inl e)
      | Some (Inr st) \<Rightarrow> Some (Inr (game st)))"

definition Play :: "('tree, 'hist, 'pos, 'x) collab \<Rightarrow> play_args \<Rightarrow> (nat \<Rightarrow> AbortPoint option) \<Rightarrow> pgn_Move list option \<Rightarrow> ('tree, 'x) SelfPlayGame \<Rightarrow> (error + ('tree, 'x) SelfPlayGame) option" where
  "Play env args aborts opening g =
     Play_end (Play_loop env args aborts 0 (Play_start env opening g))"

declare retry_loop.simps [code]

declare Play_loop.simps [code]

subsection \<open>Notions used to state the properties\<close>

text \<open>
  The constraints of a move description, in the words of the specification: the
  destination square, the moved piece checked against the piece on the source square of
  the generated move, and the optional source file and rank. \<open>seen_as\<close> is the move in
  the coordinates of the book.
\<close>

definition piece_on_source :: "ChessBoard \<Rightarrow> pgn_Piece \<Rightarrow> BoardSquare \<Rightarrow> bool" where
  "piece_on_source board p s =
     (case p of
        Piece_Knight \<Rightarrow> s \<in> our_knights board
      | Piece_Bishop \<Rightarrow> s \<in> bishops board
      | Piece_Rook \<Rightarrow> s \<in> rooks board
      | Piece_Queen \<Rightarrow> s \<in> queens board
      | Piece_King \<Rightarrow> s \<in> our_king board
      | Piece_Pawn \<Rightarrow> s \<in> pawns board
      | Piece_Null \<Rightarrow> True)"

definition seen_as :: "bool \<Rightarrow> Move \<Rightarrow> Move" where
  "seen_as mirror generated = (if mirror then Mirror generated else generated)"

definition satisfies_description :: "pgn_Ply \<Rightarrow> ChessBoard \<Rightarrow> bool \<Rightarrow> Move \<Rightarrow> bool" where
  "satisfies_description ply board mirror generated =
     (row (to_sq (seen_as mirror generated)) = rowIndex (toSquare ply) \<and>
      col (to_sq (seen_as mirror generated)) = colIndex (toSquare ply) \<and>
      piece_on_source board (piece ply) (from_sq generated) \<and>
      (colIndex (fromSquare ply) \<ge> 0 \<longrightarrow>
         col (from_sq (seen_as mirror generated)) = colIndex (fromSquare ply)) \<and>
      (rowIndex (fromSquare ply) \<ge> 0 \<longrightarrow>
         row (from_sq (seen_as mirror generated)) = rowIndex (fromSquare ply)))"

definition unrecognized :: "pgn_Ply \<Rightarrow> error" where
  "unrecognized ply = Exception (''Didn't understood move: '' @ str ply)"

text \<open>
  A move starts on the king's square of a board when its source square, in the
  coordinates of the board, holds the king of the side to move.
\<close>

definition from_king_square :: "ChessBoard \<Rightarrow> bool \<Rightarrow> Move \<Rightarrow> bool" where
  "from_king_square board mirror m = (from_sq (seen_as mirror m) \<in> our_king board)"

text \<open>
  The outcome label of a training record, in the words of the specification: +1 when
  the side of the record won, -1 when it lost, 0 otherwise.
\<close>

definition outcome_label :: "GameResult \<Rightarrow> bool \<Rightarrow> int" where
  "outcome_label res black_to_move =
     (if res = (if black_to_move then BLACK_WON else WHITE_WON) then 1
      else if res = (if black_to_move then WHITE_WON else BLACK_WON) then - 1
      else 0)"

definition move_number_of :: "('tree, 'hist, 'pos, 'x) collab \<Rightarrow> ('tree, 'x) SelfPlayGame \<Rightarrow> int" where
  "move_number_of env g = int (GetLength env (GetPositionHistory env (tree_at g 0)) div 2) + 1"

definition win_for_mover :: "bool \<Rightarrow> GameResult" where
  "win_for_mover blacks_turn = (if blacks_turn then BLACK_WON else WHITE_WON)"

definition win_for_opponent :: "bool \<Rightarrow> GameResult" where
  "win_for_opponent blacks_turn = (if blacks_turn then WHITE_WON else BLACK_WON)"

text \<open>
  The state of \<^verbatim>\<open>Play\<close> once another thread has called \<^verbatim>\<open>Abort()\<close>, and the state in
  which an iteration goes on after line 228 when it has left the search in state \<open>st\<close>
  and the call of \<^verbatim>\<open>Abort()\<close> of the iteration, if there is one, falls at \<open>ev\<close>.
\<close>

definition aborted :: "('tree, 'x) play_state \<Rightarrow> ('tree, 'x) play_state" where
  "aborted st = st\<lparr>game := Abort (game st)\<rparr>"

definition after_search :: "AbortPoint option \<Rightarrow> ('tree, 'x) play_state \<Rightarrow> ('tree, 'x) play_state" where
  "after_search ev st = (if ev = Some AfterSearch then aborted st else st)"

text \<open>
  The state in which the ply loop, started in \<open>st0\<close>, comes to the head of its
  iteration \<open>n\<close>: every iteration before it has found the flag unset and has committed
  a move. \<open>in_Play\<close> says that \<^verbatim>\<open>Play\<close>, called on the game \<open>g\<close>, enters iteration \<open>n\<close>
  of its ply loop in the state \<open>st\<close>; \<open>Play_after\<close> is what \<^verbatim>\<open>Play\<close> returns when that
  iteration ends with \<open>r\<close>.
\<close>

fun iteration :: "('tree, 'hist, 'pos, 'x) collab \<Rightarrow> play_args \<Rightarrow> (nat \<Rightarrow> AbortPoint option) \<Rightarrow> ('tree, 'x) play_state \<Rightarrow> nat \<Rightarrow> ('tree, 'x) play_state option" where
  "iteration env args aborts st0 0 = Some st0"
| "iteration env args aborts st0 (Suc n) =
     (case iteration env args aborts st0 n of
        None \<Rightarrow> None
      | Some st \<Rightarrow>
          if abort (game st) then None
          else (case play_ply env args (aborts n) st of
                  Some (Inr (Continue st')) \<Rightarrow> Some st'
                | _ \<Rightarrow> None))"

definition in_Play :: "('tree, 'hist, 'pos, 'x) collab \<Rightarrow> play_args \<Rightarrow> (nat \<Rightarrow> AbortPoint option) \<Rightarrow> pgn_Move list option \<Rightarrow> ('tree, 'x) SelfPlayGame \<Rightarrow> nat \<Rightarrow> ('tree, 'x) play_state \<Rightarrow> bool" where
  "in_Play env args aborts opening g n st =
     (iteration env args aborts (Play_start env opening g) n = Some st \<and> \<not> abort (game st))"

definition Play_after :: "('tree, 'hist, 'pos, 'x) collab \<Rightarrow> play_args \<Rightarrow> (nat \<Rightarrow> AbortPoint option) \<Rightarrow> nat \<Rightarrow> (error + ('tree, 'x) play_state step) option \<Rightarrow> (error + ('tree, 'x) SelfPlayGame) option" where
  "Play_after env args aborts n r =
     (case r of
        None \<Rightarrow> None
      | Some (Inl e) \<Rightarrow> Some (Inl e)
      | Some (Inr (Break st')) \<Rightarrow> Some (Inr (game st'))
      | Some (Inr (Continue st')) \<Rightarrow> Play_end (Play_loop env args aborts (Suc n) st'))"

text \<open>
  \<^verbatim>\<open>Play\<close> returns with the result \<open>r\<close> and has committed no move since the search that
  left the state \<open>st1\<close>: both trees are as that search left them, no discarded-move
  callback has been called and the best move of the search has not been reset.
\<close>

definition Play_stops_with :: "('tree, 'hist, 'pos, 'x) collab \<Rightarrow> play_args \<Rightarrow> (nat \<Rightarrow> AbortPoint option) \<Rightarrow> pgn_Move list option \<Rightarrow> ('tree, 'x) SelfPlayGame \<Rightarrow> GameResult \<Rightarrow> ('tree, 'x) play_state \<Rightarrow> bool" where
  "Play_stops_with env args aborts opening g r st1 =
     (case Play env args aborts opening g of
        Some (Inr g') \<Rightarrow>
          game_result g' = r \<and>
          tree g' = tree (game st1) \<and> heap g' = heap (game st1) \<and>
          discarded_calls g' = discarded_calls (game st1) \<and>
          map_option resets (search g') = map_option resets (search (game st1))
      | _ \<Rightarrow> False)"

text \<open>
  The answer of the resignation test in an iteration that the search \<open>s\<close> has left in
  the state \<open>st1\<close>, and the game with which the retry loop of that iteration begins
  when the call of \<^verbatim>\<open>Abort()\<close> of the iteration, if there is one, falls at \<open>ev\<close>.
\<close>

definition resignation :: "('tree, 'hist, 'pos, 'x) collab \<Rightarrow> play_args \<Rightarrow> ('tree, 'x) play_state \<Rightarrow> Search \<Rightarrow> GameResult option" where
  "resignation env args st1 s =
     resign_check (uci (game st1) (idx_of (blacks_move st1))) (enable_resign args)
       (move_number_of env (game st1)) (blacks_move st1)
       (eval_of (best_eval s)) (best_w_of (best_eval s)) (snd (best_eval s))
       (best_l_of (best_eval s))"

definition retry_start :: "('tree, 'hist, 'pos, 'x) collab \<Rightarrow> play_args \<Rightarrow> AbortPoint option \<Rightarrow> ('tree, 'x) play_state \<Rightarrow> ('tree, 'x) SelfPlayGame" where
  "retry_start env args ev st1 =
     (case search (game (after_search ev st1)) of
        Some s \<Rightarrow> note_eval env args (blacks_move st1) (game (after_search ev st1)) s
      | None \<Rightarrow> game (after_search ev st1))"

text \<open>An iteration of the ply loop ends the loop.\<close>

definition breaks :: "('tree, 'hist, 'pos, 'x) collab \<Rightarrow> play_args \<Rightarrow> AbortPoint option \<Rightarrow> ('tree, 'x) play_state \<Rightarrow> bool" where
  "breaks env args ev st =
     (case play_ply env args ev st of Some (Inr (Break st')) \<Rightarrow> True | _ \<Rightarrow> False)"


text \<open>
  The retry loop in the words of the specification. The edges of the head of the tree
  of side \<open>idx\<close>; the maximum visit count over these edges (0 without edges); the visit
  count of a move (that of its edge, 0 when no edge carries it); and the state after an
  iteration that discards the move of the search: the discarded-move callback of the
  side is called with the moves of the game followed by the candidate when the position
  after the candidate is not terminal, and the best move of the search is reset.
\<close>

definition head_edges :: "('tree, 'hist, 'pos, 'x) collab \<Rightarrow> ('tree, 'x) SelfPlayGame \<Rightarrow> nat \<Rightarrow> (Move \<times> 32 word) list" where
  "head_edges env g idx = Edges env (tree_at g idx) (IsBlackToMove env (tree_at g idx))"

definition max_visits :: "(Move \<times> 32 word) list \<Rightarrow> 32 word" where
  "max_visits edges = Max (insert 0 (snd ` set edges))"

definition visits_of :: "(Move \<times> 32 word) list \<Rightarrow> Move \<Rightarrow> 32 word" where
  "visits_of edges move =
     (case find (\<lambda>e. fst e = move) (rev edges) of None \<Rightarrow> 0 | Some e \<Rightarrow> snd e)"

definition discard :: "('tree, 'hist, 'pos, 'x) collab \<Rightarrow> nat \<Rightarrow> ('tree, 'x) SelfPlayGame \<Rightarrow> Search \<Rightarrow> ('tree, 'x) SelfPlayGame" where
  "discard env idx g s =
     (let t = tree_at g idx;
          candidate = (if IsBlackToMove env t then Mirror (GetBestMove s) else GetBestMove s);
          undecided = (ComputeGameResult env (Append env (GetPositionHistory env t) candidate)
                         = UNDECIDED)
      in g\<lparr>discarded_calls :=
             (if undecided then discarded_calls g @ [(idx, GetMoves env g @ [GetBestMove s])]
              else discarded_calls g),
           search := Some (ResetBestMove s)\<rparr>)"

text \<open>
  The visit counter of a node is a \<^verbatim>\<open>uint32_t\<close> that counts every visit of the node,
  and each visit of an edge of the node is one: the counts of the edges of a head sum
  to less than \<open>2 ^ 32\<close>.
\<close>

definition counts_fit :: "(Move \<times> 32 word) list \<Rightarrow> bool" where
  "counts_fit edges = (sum_list (map (\<lambda>e. unat (snd e)) edges) < 2 ^ 32)"



subsection \<open>Concrete inputs\<close>

text \<open>
  A board with a knight on b1, pawns on e2 and a7 and the king on c1, with three legal
  moves; book plies; and a small implementation of the collaborators: a tree is the
  list of the moves made, the head has the given edges, every search answers with the
  single-precision numbers nearest to the given evaluation and proposes e2e4 first and
  b1c3 after a reset, and no position is terminal. A search reports 12 playouts when
  its responder is the castling adapter and 13 when it is not.
\<close>

definition sq :: "int \<Rightarrow> int \<Rightarrow> BoardSquare" where
  "sq r c = \<lparr>row = r, col = c\<rparr>"

definition mv :: "BoardSquare \<Rightarrow> BoardSquare \<Rightarrow> Move" where
  "mv a b = \<lparr>from_sq = a, to_sq = b, promotion_of = Promotion_None\<rparr>"

definition example_board :: ChessBoard where
  "example_board =
     \<lparr>GenerateLegalMoves = [mv (sq 0 1) (sq 2 2), mv (sq 1 4) (sq 3 4), mv (sq 6 0) (sq 7 0)],
      our_knights = {sq 0 1}, bishops = {}, rooks = {}, queens = {},
      our_king = {sq 0 2}, pawns = {sq 1 4, sq 6 0}\<rparr>"

definition example_ply :: "pgn_Piece \<Rightarrow> int \<Rightarrow> int \<Rightarrow> string \<Rightarrow> pgn_Ply" where
  "example_ply p r c notation =
     \<lparr>valid = True, isShortCastle = False, isLongCastle = False,
      toSquare = \<lparr>colIndex = c, rowIndex = r\<rparr>,
      fromSquare = \<lparr>colIndex = - 1, rowIndex = - 1\<rparr>,
      piece = p, promotion = False, promoted_letter = CHR '' '', str = notation\<rparr>"

definition example_castle :: "bool \<Rightarrow> pgn_Ply" where
  "example_castle short =
     (example_ply Piece_King (- 1) (- 1) (if short then ''O-O'' else ''O-O-O''))
       \<lparr>isShortCastle := short, isLongCastle := \<not> short\<rparr>"

definition example_promotion :: "char \<Rightarrow> pgn_Ply" where
  "example_promotion letter =
     (example_ply Piece_Pawn 7 0 (''a8='' @ [letter]))
       \<lparr>promotion := True, promoted_letter := letter\<rparr>"

definition example_signals :: "SearchStopper \<Rightarrow> int \<times> int \<times> int \<Rightarrow> bool" where
  "example_signals stopper stats =
     (case stats of (nodes, played, elapsed) \<Rightarrow>
        (case stopper of
           VisitsStopper n \<Rightarrow> nodes \<ge> n
         | PlayoutsStopper n \<Rightarrow> played \<ge> n
         | TimeLimitStopper ms \<Rightarrow> elapsed \<ge> ms
         | IntrinsicStopper k \<Rightarrow> False))"

definition example_search :: "rat \<Rightarrow> rat \<Rightarrow> Search" where
  "example_search q d =
     \<lparr>total_playouts = 12, best_eval = (rnd q, rnd d),
      best_moves = (\<lambda>k. if k = 0 then mv (sq 1 4) (sq 3 4) else mv (sq 0 1) (sq 2 2)),
      resets = 0, stop_requested = False\<rparr>"

definition toy :: "(Move \<times> 32 word) list \<Rightarrow> rat \<Rightarrow> rat \<Rightarrow> (Move list, Move list, nat, unit) collab" where
  "toy edges q d =
     \<lparr>ResetToPosition = (\<lambda>fen moves. moves),
      MakeMove = (\<lambda>t m. t @ [m]),
      TrimTreeAtHead = (\<lambda>t. t),
      GetPlyCount = length,
      IsBlackToMove = (\<lambda>t. odd (length t)),
      GetPositionHistory = (\<lambda>t. t),
      HeadBoard = (\<lambda>t. example_board),
      Edges = (\<lambda>t as_opponent. edges),
      ParentMoves = rev,
      GetV4TrainingData = (\<lambda>t res h best_q best_d.
         \<lparr>side_to_move = (if odd (length t) then 1 else 0), result = 0, features = ()\<rparr>),
      ComputeGameResult = (\<lambda>h. UNDECIDED),
      GetLength = (\<lambda>h. Suc (length h)),
      Append = (\<lambda>h m. h @ [m]),
      LastBoard = (\<lambda>h. example_board),
      Starting = (\<lambda>h. 0),
      NextPosition = (\<lambda>pos m. Suc pos),
      PosIsBlackToMove = odd,
      GetLegacyMove = (\<lambda>pos m. m),
      PopulateIntrinsicStoppers = (\<lambda>chain opts. chain),
      RunBlocking = (\<lambda>t idx opts responder stoppers threads.
         (t, (example_search q d)
               \<lparr>total_playouts := (case responder of
                                     Chess960Transformer inner board \<Rightarrow> 12
                                   | CallbackUciResponder i \<Rightarrow> 13)\<rparr>)),
      NDEBUG = False\<rparr>"

definition example_options :: "rat \<Rightarrow> bool \<Rightarrow> int \<Rightarrow> bool \<Rightarrow> PlayerOptions" where
  "example_options pct wdl min_visits c960 =
     \<lparr>uci_options = \<lparr>ReuseTree = False, ResignPercentage = rnd pct, ResignWDLStyle = wdl,
                      ResignEarliestMove = 0, MinimumAllowedVisits = min_visits,
                      UCI_Chess960 = c960\<rparr>,
      search_limits = \<lparr>visits = 100, playouts = - 1, movetime = - 1\<rparr>\<rparr>"

definition example_args :: play_args where
  "example_args = \<lparr>white_threads = 1, black_threads = 1, training = True, enable_resign = True\<rparr>"

definition example_game :: "(Move \<times> 32 word) list \<Rightarrow> rat \<Rightarrow> rat \<Rightarrow> PlayerOptions \<Rightarrow> PlayerOptions \<Rightarrow> (Move list, unit) SelfPlayGame" where
  "example_game edges q d player1 player2 =
     SelfPlayGame_new (toy edges q d) ''rnbqkbnr'' ''RNBQKBNR'' player1 player2 False []"

definition example_state :: "(Move \<times> 32 word) list \<Rightarrow> rat \<Rightarrow> rat \<Rightarrow> PlayerOptions \<Rightarrow> (Move list, unit) play_state" where
  "example_state edges q d player =
     \<lparr>game = (example_game edges q d player player)\<lparr>search := Some (example_search q d)\<rparr>,
      blacks_move = False, openingMove = []\<rparr>"

text \<open>
  The state in which the first iteration of \<^verbatim>\<open>Play\<close> on a new game of the small
  implementation passes line 228: the search of White has run.
\<close>

definition example_searched :: "(Move \<times> 32 word) list \<Rightarrow> rat \<Rightarrow> rat \<Rightarrow> PlayerOptions \<Rightarrow> PlayerOptions \<Rightarrow> (Move list, unit) play_state" where
  "example_searched edges q d player1 player2 =
     \<lparr>game = (example_game edges q d player1 player2)
                \<lparr>search := Some ((example_search q d)
                     \<lparr>total_playouts :=
                        (if UCI_Chess960 (uci_options player1) \<or> UCI_Chess960 (uci_options player2)
                         then 13 else 12)\<rparr>),
                 move_count := 1,
                 nodes_total := (if UCI_Chess960 (uci_options player1) \<or> UCI_Chess960 (uci_options player2)
                                 then 13 else 12)\<rparr>,
      blacks_move = False, openingMove = []\<rparr>"

definition low_edges :: "(Move \<times> 32 word) list" where
  "low_edges = [(mv (sq 1 4) (sq 3 4), 2), (mv (sq 0 1) (sq 2 2), 10)]"

definition example_chunk :: "8 word \<Rightarrow> unit V4TrainingData" where
  "example_chunk side = \<lparr>side_to_move = side, result = 0, features = ()\<rparr>"

section \<open>Properties\<close>

subsection \<open>The move resolver\<close>

lemma piece_test:
  "(piece ply = Piece_Knight \<and> \<not> from_sq g \<in> our_knights board \<or>
    piece ply = Piece_Bishop \<and> \<not> from_sq g \<in> bishops board \<or>
    piece ply = Piece_Rook \<and> \<not> from_sq g \<in> rooks board \<or>
    piece ply = Piece_Queen \<and> \<not> from_sq g \<in> queens board \<or>
    piece ply = Piece_King \<and> \<not> from_sq g \<in> our_king board \<or>
    piece ply = Piece_Pawn \<and> \<not> from_sq g \<in> pawns board)
   = (\<not> piece_on_source board (piece ply) (from_sq g))"
  by (cases "piece ply") (simp_all add: piece_on_source_def)

lemma resolve_loop_step:
  "resolve_loop ndebug ply board mirror (g # rest) =
     (if satisfies_description ply board mirror g
      then apply_promotion ndebug ply (seen_as mirror g)
      else resolve_loop ndebug ply board mirror rest)"
  unfolding resolve_loop.simps Let_def piece_test satisfies_description_def seen_as_def
  by auto

lemma apply_promotion_squares:
  "apply_promotion ndebug ply m = Inr m' \<Longrightarrow> from_sq m' = from_sq m \<and> to_sq m' = to_sq m"
  by (auto simp: apply_promotion_def SetPromotion_def split: if_splits)

lemma apply_promotion_no_exception:
  "apply_promotion ndebug ply m \<noteq> Inl (Exception e)"
  by (auto simp: apply_promotion_def)

lemma resolve_loop_unrecognized_iff:
  "resolve_loop ndebug ply board mirror ms = Inl (unrecognized ply)
     \<longleftrightarrow> (\<forall>g \<in> set ms. \<not> satisfies_description ply board mirror g)"
proof (induction ms)
  case Nil
  show ?case by (simp add: unrecognized_def)
next
  case (Cons g rest)
  show ?case
  proof (cases "satisfies_description ply board mirror g")
    case True
    then show ?thesis
      by (simp only: resolve_loop_step) (simp add: unrecognized_def apply_promotion_no_exception)
  next
    case False
    then show ?thesis using Cons.IH by (simp only: resolve_loop_step) simp
  qed
qed

lemma resolve_loop_returns:
  "resolve_loop ndebug ply board mirror ms = Inr m \<Longrightarrow>
     \<exists>g \<in> set ms. satisfies_description ply board mirror g \<and>
        from_sq m = from_sq (seen_as mirror g) \<and> to_sq m = to_sq (seen_as mirror g)"
proof (induction ms)
  case Nil
  then show ?case by simp
next
  case (Cons g rest)
  show ?case
  proof (cases "satisfies_description ply board mirror g")
    case True
    with Cons.prems have "apply_promotion ndebug ply (seen_as mirror g) = Inr m"
      by (simp only: resolve_loop_step) simp
    with True show ?thesis by (auto dest: apply_promotion_squares)
  next
    case False
    with Cons.prems have "resolve_loop ndebug ply board mirror rest = Inr m"
      by (simp only: resolve_loop_step) simp
    with Cons.IH show ?thesis by auto
  qed
qed

text \<open>
  C6. For a description without a castle flag, the resolver throws the exception that
  carries the notation of the ply exactly when no legal move of the board satisfies the
  description; and a move that it returns has the squares of a legal move that
  satisfies the description (destination, piece on the source square, optional source
  file and rank): it never returns a move that violates a stated constraint.
\<close>

theorem resolver_unrecognized_move:
  assumes "\<not> isShortCastle ply" and "\<not> isLongCastle ply"
  shows "(ply_to_lc0_move ndebug ply board mirror = Inl (unrecognized ply)
            \<longleftrightarrow> (\<forall>g \<in> set (GenerateLegalMoves board). \<not> satisfies_description ply board mirror g))
       \<and> (\<forall>m. ply_to_lc0_move ndebug ply board mirror = Inr m \<longrightarrow>
            (\<exists>g \<in> set (GenerateLegalMoves board). satisfies_description ply board mirror g \<and>
               from_sq m = from_sq (seen_as mirror g) \<and> to_sq m = to_sq (seen_as mirror g)))"
  using assms
  by (auto simp: ply_to_lc0_move_def resolve_loop_unrecognized_iff dest: resolve_loop_returns)

lemmas board_defs = example_ply_def example_board_def example_castle_def example_promotion_def
  satisfies_description_def seen_as_def unrecognized_def sq_def mv_def Mirror_def Mirror_sq_def
  piece_on_source_def

theorem resolver_unrecognized_move_witness:
  "ply_to_lc0_move False (example_ply Piece_King 4 4 ''Ke5'') example_board False
     = Inl (Exception ''Didn't understood move: Ke5'')
   \<and> ply_to_lc0_move False (example_ply Piece_Knight 2 2 ''Nc3'') example_board True
     = Inl (Exception ''Didn't understood move: Nc3'')
   \<and> ply_to_lc0_move False (example_ply Piece_Knight 2 2 ''Nc3'') example_board False
     = Inr (mv (sq 0 1) (sq 2 2))
   \<and> satisfies_description (example_ply Piece_Knight 2 2 ''Nc3'') example_board False
        (mv (sq 0 1) (sq 2 2))"
proof -
  have king: "ply_to_lc0_move False (example_ply Piece_King 4 4 ''Ke5'') example_board False
     = Inl (Exception ''Didn't understood move: Ke5'')"
    using resolver_unrecognized_move
      [of "example_ply Piece_King 4 4 ''Ke5''" False example_board False]
    by (simp add: board_defs)
  have knight: "ply_to_lc0_move False (example_ply Piece_Knight 2 2 ''Nc3'') example_board True
     = Inl (Exception ''Didn't understood move: Nc3'')"
    using resolver_unrecognized_move
      [of "example_ply Piece_Knight 2 2 ''Nc3''" False example_board True]
    by (simp add: board_defs)
  have found: "ply_to_lc0_move False (example_ply Piece_Knight 2 2 ''Nc3'') example_board False
     = Inr (mv (sq 0 1) (sq 2 2))"
    by (simp add: ply_to_lc0_move_def apply_promotion_def board_defs)
  have ok: "satisfies_description (example_ply Piece_Knight 2 2 ''Nc3'') example_board False
        (mv (sq 0 1) (sq 2 2))"
    by (simp add: board_defs)
  from king knight found ok show ?thesis by (intro conjI)
qed

text \<open>
  C7, as the code has it. For a description with a castle flag the resolver returns,
  whatever the board and its legal moves, the move from file 4 of the mover's back rank
  (row 0, row 7 when mirrored) to file 7 (short castling) or file 0 (long castling) of
  that rank. Its source square is the king's square of the board exactly when the king
  of the board stands on file 4 of its back rank.
\<close>

theorem castle_resolves_from_file_4:
  assumes "isShortCastle ply \<or> isLongCastle ply"
  shows "ply_to_lc0_move ndebug ply board mirror =
           Inr \<lparr>from_sq = \<lparr>row = (if mirror then 7 else 0), col = 4\<rparr>,
                to_sq = \<lparr>row = (if mirror then 7 else 0),
                         col = (if isShortCastle ply then 7 else 0)\<rparr>,
                promotion_of = Promotion_None\<rparr>
       \<and> (from_king_square board mirror
             \<lparr>from_sq = \<lparr>row = (if mirror then 7 else 0), col = 4\<rparr>,
              to_sq = \<lparr>row = (if mirror then 7 else 0),
                       col = (if isShortCastle ply then 7 else 0)\<rparr>,
              promotion_of = Promotion_None\<rparr>
            \<longleftrightarrow> \<lparr>row = 0, col = 4\<rparr> \<in> our_king board)"
  using assms
  by (simp add: ply_to_lc0_move_def Move_default_def SetFrom_def SetTo_def Let_def
      from_king_square_def seen_as_def Mirror_def Mirror_sq_def)

theorem castle_resolves_from_file_4_witness:
  "ply_to_lc0_move False (example_castle True) example_board False = Inr (mv (sq 0 4) (sq 0 7))
   \<and> ply_to_lc0_move False (example_castle False) example_board True = Inr (mv (sq 7 4) (sq 7 0))"
  using castle_resolves_from_file_4 [of "example_castle True" False example_board False]
    castle_resolves_from_file_4 [of "example_castle False" False example_board True]
  by (simp add: example_castle_def example_ply_def sq_def mv_def)

text \<open>
  C7 as stated fails on a board whose king is not on file 4: with the king on c1 the
  move returned for short castling starts on e1, which is not the king's square.
\<close>

theorem castle_from_king_square_counterexample:
  "ply_to_lc0_move False (example_castle True) example_board False = Inr (mv (sq 0 4) (sq 0 7))
   \<and> our_king example_board = {sq 0 2}
   \<and> \<not> from_king_square example_board False (mv (sq 0 4) (sq 0 7))"
  by (simp add: ply_to_lc0_move_def Move_default_def SetFrom_def SetTo_def Let_def
      from_king_square_def board_defs)

lemma promotion_with_break:
  assumes "promotion ply"
  shows "promoted_letter ply = CHR ''Q'' \<Longrightarrow>
           apply_promotion ndebug ply m = Inr (m\<lparr>promotion_of := Promotion_Queen\<rparr>)"
    and "promoted_letter ply = CHR ''R'' \<Longrightarrow>
           apply_promotion ndebug ply m = Inr (m\<lparr>promotion_of := Promotion_Rook\<rparr>)"
    and "promoted_letter ply = CHR ''B'' \<Longrightarrow>
           apply_promotion ndebug ply m = Inr (m\<lparr>promotion_of := Promotion_Bishop\<rparr>)"
  using assms by (simp_all add: apply_promotion_def SetPromotion_def)

lemma promotion_to_knight:
  assumes "promotion ply" and "promoted_letter ply = CHR ''N''"
  shows "apply_promotion ndebug ply m =
           (if ndebug then Inr (m\<lparr>promotion_of := Promotion_Knight\<rparr>) else Inl AssertionFailed)"
  using assms by (simp add: apply_promotion_def SetPromotion_def)

text \<open>
  C8 at the promotion to a knight. The ply a8=N matches the legal move a7a8. In a build
  with assertions the resolver ends in the failed assertion of the default branch; in
  a build without them it returns the move with the knight set. For the letter Q the
  move is returned with the queen set.
\<close>

theorem knight_promotion_reaches_assert:
  "ply_to_lc0_move False (example_promotion CHR ''N'') example_board False = Inl AssertionFailed
   \<and> ply_to_lc0_move True (example_promotion CHR ''N'') example_board False
       = Inr ((mv (sq 6 0) (sq 7 0))\<lparr>promotion_of := Promotion_Knight\<rparr>)
   \<and> ply_to_lc0_move False (example_promotion CHR ''Q'') example_board False
       = Inr ((mv (sq 6 0) (sq 7 0))\<lparr>promotion_of := Promotion_Queen\<rparr>)"
  by (simp add: ply_to_lc0_move_def apply_promotion_def SetPromotion_def board_defs)

subsection \<open>The stopper factory\<close>

lemma ShouldStop_iff: "ShouldStop signals chain stats \<longleftrightarrow> (\<exists>x \<in> set chain. signals x stats)"
  by (induction chain) auto

lemma MakeSearchStopper_eq:
  "MakeSearchStopper limits =
     (if visits limits \<ge> 0 then [VisitsStopper (visits limits)] else []) @
     (if playouts limits \<ge> 0 then [PlayoutsStopper (playouts limits)] else []) @
     (if movetime limits \<ge> 0 then [TimeLimitStopper (movetime limits)] else [])"
  by (simp add: MakeSearchStopper_def AddStopper_def Let_def)

text \<open>
  C5. The composite of a limits record holds one sub-stopper for each of the three
  fields that is not negative, in the order visits, playouts, move time, and nothing
  else; it signals exactly when one of the sub-stoppers it holds signals; with the
  three fields unset it is empty and does not signal.
\<close>

theorem MakeSearchStopper_composite:
  "MakeSearchStopper limits =
     (if visits limits \<ge> 0 then [VisitsStopper (visits limits)] else []) @
     (if playouts limits \<ge> 0 then [PlayoutsStopper (playouts limits)] else []) @
     (if movetime limits \<ge> 0 then [TimeLimitStopper (movetime limits)] else [])
   \<and> (ShouldStop signals (MakeSearchStopper limits) stats
        \<longleftrightarrow> (\<exists>x \<in> set (MakeSearchStopper limits). signals x stats))
   \<and> (visits limits < 0 \<and> playouts limits < 0 \<and> movetime limits < 0 \<longrightarrow>
        MakeSearchStopper limits = [] \<and> \<not> ShouldStop signals (MakeSearchStopper limits) stats)"
proof (intro conjI impI)
  show "MakeSearchStopper limits =
     (if visits limits \<ge> 0 then [VisitsStopper (visits limits)] else []) @
     (if playouts limits \<ge> 0 then [PlayoutsStopper (playouts limits)] else []) @
     (if movetime limits \<ge> 0 then [TimeLimitStopper (movetime limits)] else [])"
    by (rule MakeSearchStopper_eq)
  show "ShouldStop signals (MakeSearchStopper limits) stats
        \<longleftrightarrow> (\<exists>x \<in> set (MakeSearchStopper limits). signals x stats)"
    by (rule ShouldStop_iff)
next
  assume unset: "visits limits < 0 \<and> playouts limits < 0 \<and> movetime limits < 0"
  then show empty: "MakeSearchStopper limits = []"
    by (simp add: MakeSearchStopper_eq)
  then show "\<not> ShouldStop signals (MakeSearchStopper limits) stats"
    by simp
qed

theorem MakeSearchStopper_composite_witness:
  "MakeSearchStopper \<lparr>visits = 100, playouts = - 1, movetime = 500\<rparr>
     = [VisitsStopper 100, TimeLimitStopper 500]
   \<and> ShouldStop example_signals (MakeSearchStopper \<lparr>visits = 100, playouts = - 1, movetime = 500\<rparr>) (100, 3, 20)
   \<and> ShouldStop example_signals (MakeSearchStopper \<lparr>visits = 100, playouts = - 1, movetime = 500\<rparr>) (40, 3, 500)
   \<and> \<not> ShouldStop example_signals (MakeSearchStopper \<lparr>visits = 100, playouts = - 1, movetime = 500\<rparr>) (99, 3000, 499)
   \<and> MakeSearchStopper \<lparr>visits = - 1, playouts = - 1, movetime = - 1\<rparr> = []
   \<and> \<not> ShouldStop example_signals (MakeSearchStopper \<lparr>visits = - 1, playouts = - 1, movetime = - 1\<rparr>) (10000, 10000, 10000)"
  using MakeSearchStopper_composite [of "\<lparr>visits = 100, playouts = - 1, movetime = 500\<rparr>" example_signals "(100, 3, 20)"]
        MakeSearchStopper_composite [of "\<lparr>visits = 100, playouts = - 1, movetime = 500\<rparr>" example_signals "(40, 3, 500)"]
        MakeSearchStopper_composite [of "\<lparr>visits = 100, playouts = - 1, movetime = 500\<rparr>" example_signals "(99, 3000, 499)"]
        MakeSearchStopper_composite [of "\<lparr>visits = - 1, playouts = - 1, movetime = - 1\<rparr>" example_signals "(10000, 10000, 10000)"]
  by (simp add: example_signals_def)

subsection \<open>The training records\<close>

lemma WriteTrainingData_foldl:
  "foldl (\<lambda>w chunk. WriteChunk w (f chunk)) writer chunks = writer @ map f chunks"
  by (induction chunks arbitrary: writer) (simp_all add: WriteChunk_def)

lemma patch_chunk_label:
  "patch_chunk res chunk = chunk\<lparr>result := word_of_int (outcome_label res (side_to_move chunk \<noteq> 0))\<rparr>"
  by (cases res) (simp_all add: patch_chunk_def outcome_label_def Let_def)

text \<open>
  C9. \<^verbatim>\<open>WriteTrainingData\<close> appends to the writer every stored record, in order, each
  with its result byte set to the outcome label of the final game result and of the
  side-to-move flag of that record, and otherwise unchanged; the label is -1, 0 or +1
  and the signed byte written reads as the label.
\<close>

theorem WriteTrainingData_labels:
  "WriteTrainingData g writer =
     writer @ map (\<lambda>chunk. chunk\<lparr>result :=
                     word_of_int (outcome_label (game_result g) (side_to_move chunk \<noteq> 0))\<rparr>)
                  (training_data g)
   \<and> (\<forall>res black_to_move.
        outcome_label res black_to_move \<in> {- 1, 0, 1} \<and>
        sint (word_of_int (outcome_label res black_to_move) :: 8 word)
          = outcome_label res black_to_move)"
proof
  show "WriteTrainingData g writer =
     writer @ map (\<lambda>chunk. chunk\<lparr>result :=
                     word_of_int (outcome_label (game_result g) (side_to_move chunk \<noteq> 0))\<rparr>)
                  (training_data g)"
    by (simp add: WriteTrainingData_def WriteTrainingData_foldl patch_chunk_label)
  show "\<forall>res black_to_move.
        outcome_label res black_to_move \<in> {- 1, 0, 1} \<and>
        sint (word_of_int (outcome_label res black_to_move) :: 8 word)
          = outcome_label res black_to_move"
    by (simp add: outcome_label_def)
qed

theorem WriteTrainingData_labels_witness:
  "WriteTrainingData
     ((game (example_state [] 0 0 (example_options 0 False 0 False)))
        \<lparr>game_result := WHITE_WON, training_data := [example_chunk 0, example_chunk 1]\<rparr>) []
     = [(example_chunk 0)\<lparr>result := 1\<rparr>, (example_chunk 1)\<lparr>result := - 1\<rparr>]
   \<and> sint (- 1 :: 8 word) = - 1"
  using WriteTrainingData_labels
    [of "(game (example_state [] 0 0 (example_options 0 False 0 False)))
           \<lparr>game_result := WHITE_WON, training_data := [example_chunk 0, example_chunk 1]\<rparr>" "[]"]
  by (simp add: example_chunk_def outcome_label_def)

subsection \<open>Single-precision arithmetic\<close>

text \<open>
  Two inputs on which the rounding decides. With the value -0.2, no draw estimate and a
  resign percentage of 60, the win estimate of the side to move is above the threshold,
  though in exact arithmetic both are 0.4; with the value 0.8 and a resign percentage of
  10 the win estimate is not above the threshold, though in exact arithmetic it is.
\<close>

lemma rounding_decides:
  "flt (fsub (Finite 1) (fdiv (Finite 60) (Finite 100))) (best_w_of (rnd (- 2 / 10), Finite 0))"
  "\<not> flt (fsub (Finite 1) (fdiv (Finite 10) (Finite 100))) (best_w_of (rnd (8 / 10), Finite 0))"
  by code_simp+









subsection \<open>Frame lemmas of the ply loop\<close>

lemma note_eval_keeps:
  "options (note_eval env args b g s) = options g"
  "tree (note_eval env args b g s) = tree g"
  "heap (note_eval env args b g s) = heap g"
  "search (note_eval env args b g s) = search g"
  "abort (note_eval env args b g s) = abort g"
  "chess960 (note_eval env args b g s) = chess960 g"
  "discarded_calls (note_eval env args b g s) = discarded_calls g"
  by (simp_all add: note_eval_def Let_def split: prod.split)

lemma Abort_alt: "Abort g = g\<lparr>search := map_option Search_Abort (search g), abort := True\<rparr>"
  by (cases "search g") (simp_all add: Abort_def)

lemma Abort_fields:
  "search (Abort g) = map_option Search_Abort (search g)"
  "abort (Abort g) = True"
  "tree (Abort g) = tree g"
  "heap (Abort g) = heap g"
  "options (Abort g) = options g"
  "chess960 (Abort g) = chess960 g"
  "discarded_calls (Abort g) = discarded_calls g"
  "training_data (Abort g) = training_data g"
  "game_result (Abort g) = game_result g"
  by (simp_all add: Abort_alt)

text \<open>An iteration that goes on after line 228 has a search, and the same locals.\<close>

lemma ply_begin_Continue:
  assumes "ply_begin env args ev st = Continue st1"
  shows "\<exists>s. search (game st1) = Some s"
    and "blacks_move st1 = blacks_move st"
    and "openingMove st1 = openingMove st"
    and "options (game st1) = options (game st)"
    and "chess960 (game st1) = chess960 (game st)"
    and "\<not> abort (game st1)"
  using assms
  by (auto simp: ply_begin_def ply_head_def Let_def Abort_fields tree_update_def
      split: step.splits if_splits)

lemma play_ply_after_search:
  "ply_begin env args ev st = Continue st1 \<Longrightarrow>
     play_ply env args ev st = ply_finish env args (after_search ev st1)"
  by (simp add: play_ply_def after_search_def aborted_def)

lemma after_search_fields:
  "search (game (after_search ev st)) =
     (if ev = Some AfterSearch then map_option Search_Abort (search (game st)) else search (game st))"
  "tree (game (after_search ev st)) = tree (game st)"
  "heap (game (after_search ev st)) = heap (game st)"
  "options (game (after_search ev st)) = options (game st)"
  "discarded_calls (game (after_search ev st)) = discarded_calls (game st)"
  "blacks_move (after_search ev st) = blacks_move st"
  "openingMove (after_search ev st) = openingMove st"
  by (simp_all add: after_search_def aborted_def Abort_fields)

lemma Search_Abort_fields:
  "best_eval (Search_Abort s) = best_eval s"
  "resets (Search_Abort s) = resets s"
  "GetBestMove (Search_Abort s) = GetBestMove s"
  "total_playouts (Search_Abort s) = total_playouts s"
  by (simp_all add: Search_Abort_def GetBestMove_def)

subsection \<open>The iterations of \<^verbatim>\<open>Play\<close>\<close>

lemma Play_loop_iteration:
  "iteration env args aborts st0 n = Some st \<Longrightarrow>
     Play_loop env args aborts 0 st0 = Play_loop env args aborts n st"
proof (induction n arbitrary: st)
  case 0
  then show ?case by simp
next
  case (Suc n)
  from Suc.prems obtain st1 where at: "iteration env args aborts st0 n = Some st1"
    and go: "\<not> abort (game st1)"
    and ply: "play_ply env args (aborts n) st1 = Some (Inr (Continue st))"
    by (auto split: option.splits if_splits sum.splits step.splits)
  from Suc.IH [OF at] have "Play_loop env args aborts 0 st0 = Play_loop env args aborts n st1" .
  also from go ply have "\<dots> = Play_loop env args aborts (Suc n) st"
    by (subst Play_loop.simps) simp
  finally show ?case .
qed

lemma Play_enters:
  assumes "in_Play env args aborts opening g n st"
  shows "Play env args aborts opening g = Play_after env args aborts n (play_ply env args (aborts n) st)"
proof -
  from assms have at: "iteration env args aborts (Play_start env opening g) n = Some st"
    and go: "\<not> abort (game st)"
    by (simp_all add: in_Play_def)
  have "Play env args aborts opening g = Play_end (Play_loop env args aborts n st)"
    by (simp add: Play_def Play_loop_iteration [OF at])
  also from go have "\<dots> = Play_after env args aborts n (play_ply env args (aborts n) st)"
    by (subst Play_loop.simps)
      (simp add: Play_after_def Play_end_def split: option.split sum.split step.split)
  finally show ?thesis .
qed

subsection \<open>The small implementation\<close>

lemmas fixture_defs = example_state_def example_game_def example_options_def example_args_def
  example_search_def toy_def SelfPlayGame_new_def Play_start_def uci_def at2_def idx_of_def
  move_number_of_def tree_at_def win_for_mover_def win_for_opponent_def
lemma example_in_Play:
  "in_Play (toy edges q d) example_args aborts None (example_game edges q d p1 p2) 0
     (Play_start (toy edges q d) None (example_game edges q d p1 p2))"
  by (simp add: in_Play_def fixture_defs)

lemma upd_const: "(\<lambda>a. c)(x := c) = (\<lambda>a. c)"
  by (rule ext) simp

lemma example_head:
  "ply_head (toy edges q d) (Play_start (toy edges q d) None (example_game edges q d p1 p2))
     = Continue (example_game edges q d p1 p2)"
  by (simp add: ply_head_def tree_update_def Let_def fixture_defs upd_const)

lemma example_searched_ply_begin:
  assumes "ev = None \<or> ev = Some AfterSearch"
  shows "ply_begin (toy edges q d) example_args ev
            (Play_start (toy edges q d) None (example_game edges q d p1 p2))
         = Continue (example_searched edges q d p1 p2)"
proof -
  have ran: "new_search (toy edges q d) example_args False (example_game edges q d p1 p2)
          = ([], (example_search q d)
                  \<lparr>total_playouts := (if UCI_Chess960 (uci_options p1) \<or> UCI_Chess960 (uci_options p2)
                                       then 13 else 12)\<rparr>)"
    by (simp add: new_search_def Let_def fixture_defs)
  have g: "abort (example_game edges q d p1 p2) = False"
    "tree (example_game edges q d p1 p2) = (0, 1)"
    "heap (example_game edges q d p1 p2) = (\<lambda>a. [])"
    "move_count (example_game edges q d p1 p2) = 0"
    "nodes_total (example_game edges q d p1 p2) = 0"
    by (simp_all add: fixture_defs)
  have st: "Play_start (toy edges q d) None (example_game edges q d p1 p2)
              = \<lparr>game = example_game edges q d p1 p2, blacks_move = False, openingMove = []\<rparr>"
    by (simp add: fixture_defs)
  from assms show ?thesis
    by (simp only: ply_begin_def example_head)
      (auto simp: ran g st Let_def tree_update_def idx_of_def at2_def
        upd_const example_searched_def tree_at_def)
qed

lemma plain_numbers:
  "rnd 0 = Finite 0"
  "rnd 1 = Finite 1"
  "rnd (1 / 2) = Finite (1 / 2)"
  by code_simp+

lemmas play_defs = ply_commit_def inBook_def note_eval_keeps
  low_edges_def aborted_def after_search_def Abort_fields fixture_defs
  MakeMove_both_def tree_update_def GetMoves_def GetBestMove_def ResetBestMove_def
  Let_def sq_def mv_def example_searched_def retry_start_def
  head_edges_def discard_def visits_of_def max_visits_def counts_fit_def

text \<open>In the small implementation no position is terminal and the trim changes nothing.\<close>

lemma toy_head:
  "\<exists>g1. ply_head (toy edges q d) st = Continue g1
     \<and> heap g1 = heap (game st) \<and> tree g1 = tree (game st)
     \<and> discarded_calls g1 = discarded_calls (game st) \<and> search g1 = search (game st)
     \<and> abort g1 = abort (game st)"
  by (simp add: ply_head_def toy_def tree_update_def tree_at_def Let_def)


lemma example_no_resignation:
  "resignation (toy edges 0 0) example_args
     (example_searched edges 0 0 (example_options 0 False m c1) (example_options 0 False m c2))
     ((example_search 0 0)\<lparr>total_playouts := k\<rparr>) = None"
  by (simp add: resignation_def resign_check_def eval_of_def play_defs plain_numbers)

subsection \<open>Resignation\<close>

lemma ply_finish_resign:
  assumes "search (game st) = Some s"
    and "resign_check (uci (game st) (idx_of (blacks_move st))) (enable_resign args)
           (move_number_of env (game st)) (blacks_move st)
           (eval_of (best_eval s)) (best_w_of (best_eval s)) (snd (best_eval s))
           (best_l_of (best_eval s)) = Some r"
  shows "ply_finish env args st =
           Some (Inr (Break (st\<lparr>game := (note_eval env args (blacks_move st) (game st) s)
                                          \<lparr>game_result := r\<rparr>\<rparr>)))"
  using assms
  by (simp add: ply_finish_def Let_def move_number_of_def uci_def tree_at_def note_eval_keeps)

lemma ply_finish_no_resign:
  assumes "search (game st) = Some s"
    and "resign_check (uci (game st) (idx_of (blacks_move st))) (enable_resign args)
           (move_number_of env (game st)) (blacks_move st)
           (eval_of (best_eval s)) (best_w_of (best_eval s)) (snd (best_eval s))
           (best_l_of (best_eval s)) = None"
  shows "ply_finish env args st = ply_select env st (note_eval env args (blacks_move st) (game st) s)"
  using assms
  by (simp add: ply_finish_def Let_def move_number_of_def uci_def tree_at_def note_eval_keeps)

lemma ply_select_no_break: "ply_select env st g \<noteq> Some (Inr (Break st'))"
  by (simp add: ply_select_def split: option.split sum.split prod.split)

text \<open>
  The resignation test of an iteration of \<^verbatim>\<open>Play\<close> that has passed line 228: when
  it answers with a result, \<^verbatim>\<open>Play\<close> returns with that result and no move committed;
  when it does not, the iteration does not end the loop.
\<close>

lemma resign_check_after_search:
  assumes "ply_begin env args ev st = Continue st1" and "search (game st1) = Some s"
  shows "\<exists>s2. search (game (after_search ev st1)) = Some s2
     \<and> resign_check (uci (game (after_search ev st1)) (idx_of (blacks_move (after_search ev st1))))
          (enable_resign args) (move_number_of env (game (after_search ev st1)))
          (blacks_move (after_search ev st1))
          (eval_of (best_eval s2)) (best_w_of (best_eval s2)) (snd (best_eval s2))
          (best_l_of (best_eval s2))
       = resign_check (uci (game st1) (idx_of (blacks_move st))) (enable_resign args)
          (move_number_of env (game st1)) (blacks_move st)
          (eval_of (best_eval s)) (best_w_of (best_eval s)) (snd (best_eval s))
          (best_l_of (best_eval s))"
  using assms(2) ply_begin_Continue(2) [OF assms(1)]
  by (simp add: after_search_fields Search_Abort_fields uci_def move_number_of_def tree_at_def)

lemma Play_resigns:
  assumes "in_Play env args aborts opening g n st"
    and "ply_begin env args (aborts n) st = Continue st1"
    and "search (game st1) = Some s"
    and "resign_check (uci (game st1) (idx_of (blacks_move st))) (enable_resign args)
           (move_number_of env (game st1)) (blacks_move st)
           (eval_of (best_eval s)) (best_w_of (best_eval s)) (snd (best_eval s))
           (best_l_of (best_eval s)) = Some r"
  shows "Play_stops_with env args aborts opening g r st1"
proof -
  let ?st2 = "after_search (aborts n) st1"
  from resign_check_after_search [OF assms(2,3)] assms(4)
  obtain s2 where s2: "search (game ?st2) = Some s2"
    and rc: "resign_check (uci (game ?st2) (idx_of (blacks_move ?st2)))
          (enable_resign args) (move_number_of env (game ?st2)) (blacks_move ?st2)
          (eval_of (best_eval s2)) (best_w_of (best_eval s2)) (snd (best_eval s2))
          (best_l_of (best_eval s2)) = Some r"
    by auto
  have "Play env args aborts opening g =
          Play_after env args aborts n (ply_finish env args ?st2)"
    by (simp add: Play_enters [OF assms(1)] play_ply_after_search [OF assms(2)])
  also have "\<dots> = Some (Inr ((note_eval env args (blacks_move ?st2) (game ?st2) s2)
                                 \<lparr>game_result := r\<rparr>))"
    by (simp add: ply_finish_resign [OF s2 rc] Play_after_def)
  finally show ?thesis
    using assms(3)
    by (auto simp: Play_stops_with_def note_eval_keeps after_search_fields Search_Abort_fields
        option.map_comp comp_def)
qed

lemma Play_plays_on:
  assumes "ply_begin env args ev st = Continue st1"
    and "search (game st1) = Some s"
    and "resign_check (uci (game st1) (idx_of (blacks_move st))) (enable_resign args)
           (move_number_of env (game st1)) (blacks_move st)
           (eval_of (best_eval s)) (best_w_of (best_eval s)) (snd (best_eval s))
           (best_l_of (best_eval s)) = None"
  shows "\<not> breaks env args ev st"
proof -
  let ?st2 = "after_search ev st1"
  from resign_check_after_search [OF assms(1,2)] assms(3)
  obtain s2 where s2: "search (game ?st2) = Some s2"
    and rc: "resign_check (uci (game ?st2) (idx_of (blacks_move ?st2)))
          (enable_resign args) (move_number_of env (game ?st2)) (blacks_move ?st2)
          (eval_of (best_eval s2)) (best_w_of (best_eval s2)) (snd (best_eval s2))
          (best_l_of (best_eval s2)) = None"
    by auto
  have "play_ply env args ev st
          = ply_select env ?st2 (note_eval env args (blacks_move ?st2) (game ?st2) s2)"
    by (simp add: play_ply_after_search [OF assms(1)] ply_finish_no_resign [OF s2 rc])
  then show ?thesis
    using ply_select_no_break [of env ?st2 "note_eval env args (blacks_move ?st2) (game ?st2) s2"]
    by (auto simp: breaks_def split: option.splits sum.splits step.splits)
qed

lemma wdl_numbers:
  "flt (fsub (Finite 1) (fdiv (rnd 5) (Finite 100)))
       (fdiv (fsub (fadd (rnd (96 / 100)) (Finite 1)) (rnd (2 / 100))) (Finite 2))"
  by code_simp



text \<open>
  C1. \<^verbatim>\<open>Play\<close> is in iteration \<open>n\<close> of its ply loop, the iteration has passed line 228
  with the search \<open>s\<close>, resignation is enabled, the WDL style is configured for the side
  to move and the move number is at least its earliest resign move. Let threshold be
  1 - resign percentage / 100 and let the win, draw and loss estimates be those of lines
  244 to 246, all computed in single precision as the code computes them. If the win
  estimate exceeds the threshold, \<^verbatim>\<open>Play\<close> returns with a win for the side to move;
  otherwise, if the loss estimate exceeds it, with a win for the opponent; otherwise, if
  the draw estimate exceeds it, with a draw; in each case no move has been committed
  since the search. If none exceeds it, the iteration does not end the loop.
\<close>

theorem wdl_resign:
  assumes "in_Play env args aborts opening g n st"
    and "ply_begin env args (aborts n) st = Continue st1"
    and "search (game st1) = Some s"
    and "enable_resign args"
    and "ResignWDLStyle (uci (game st1) (idx_of (blacks_move st)))"
    and "ResignEarliestMove (uci (game st1) (idx_of (blacks_move st))) \<le> move_number_of env (game st1)"
  shows "let threshold = fsub (Finite 1)
                           (fdiv (ResignPercentage (uci (game st1) (idx_of (blacks_move st))))
                                 (Finite 100));
             best_w = fdiv (fsub (fadd (fst (best_eval s)) (Finite 1)) (snd (best_eval s)))
                           (Finite 2);
             best_d = snd (best_eval s);
             best_l = fsub best_w (fst (best_eval s))
         in (flt threshold best_w \<longrightarrow>
               Play_stops_with env args aborts opening g (win_for_mover (blacks_move st)) st1) \<and>
            (\<not> flt threshold best_w \<and> flt threshold best_l \<longrightarrow>
               Play_stops_with env args aborts opening g (win_for_opponent (blacks_move st)) st1) \<and>
            (\<not> flt threshold best_w \<and> \<not> flt threshold best_l \<and> flt threshold best_d \<longrightarrow>
               Play_stops_with env args aborts opening g DRAW st1) \<and>
            (\<not> flt threshold best_w \<and> \<not> flt threshold best_l \<and> \<not> flt threshold best_d \<longrightarrow>
               \<not> breaks env args (aborts n) st)"
  unfolding Let_def
proof (intro conjI impI)
  let ?t = "fsub (Finite 1)
              (fdiv (ResignPercentage (uci (game st1) (idx_of (blacks_move st)))) (Finite 100))"
  let ?w = "fdiv (fsub (fadd (fst (best_eval s)) (Finite 1)) (snd (best_eval s))) (Finite 2)"
  let ?d = "snd (best_eval s)"
  let ?l = "fsub ?w (fst (best_eval s))"
  note rc = resign_check_def Let_def win_for_mover_def win_for_opponent_def
    best_w_of_def best_l_of_def
  show "Play_stops_with env args aborts opening g (win_for_mover (blacks_move st)) st1"
    if "flt ?t ?w"
    using that assms(4-6) by (intro Play_resigns [OF assms(1-3)]) (simp add: rc)
  show "Play_stops_with env args aborts opening g (win_for_opponent (blacks_move st)) st1"
    if "\<not> flt ?t ?w \<and> flt ?t ?l"
    using that assms(4-6) by (intro Play_resigns [OF assms(1-3)]) (simp add: rc)
  show "Play_stops_with env args aborts opening g DRAW st1"
    if "\<not> flt ?t ?w \<and> \<not> flt ?t ?l \<and> flt ?t ?d"
    using that assms(4-6) by (intro Play_resigns [OF assms(1-3)]) (simp add: rc)
  show "\<not> breaks env args (aborts n) st"
    if "\<not> flt ?t ?w \<and> \<not> flt ?t ?l \<and> \<not> flt ?t ?d"
    using that assms(4-6) by (intro Play_plays_on [OF assms(2,3)]) (simp add: rc)
qed

text \<open>
  The example of the specification: win 0.97, draw 0.02, loss 0.01 (value 0.96) and a
  resign percentage of 5, with White to move in the first iteration.
\<close>

theorem wdl_resign_witness:
  "(case Play (toy [] (96 / 100) (2 / 100)) example_args (\<lambda>n. None) None
          (example_game [] (96 / 100) (2 / 100)
             (example_options 5 True 0 False) (example_options 5 True 0 False)) of
      Some (Inr g') \<Rightarrow> game_result g' = WHITE_WON \<and> heap g' 0 = [] \<and> heap g' 1 = []
    | _ \<Rightarrow> False)"
proof -
  let ?env = "toy [] (96 / 100) (2 / 100)"
  let ?p = "example_options 5 True 0 False"
  let ?g = "example_game [] (96 / 100) (2 / 100) ?p ?p"
  let ?st = "Play_start ?env None ?g"
  let ?st1 = "example_searched [] (96 / 100) (2 / 100) ?p ?p"
  let ?s = "(example_search (96 / 100) (2 / 100))\<lparr>total_playouts := 12\<rparr>"
  have 1: "in_Play ?env example_args (\<lambda>n. None) None ?g 0 ?st"
    by (rule example_in_Play)
  have 2: "ply_begin ?env example_args None ?st = Continue ?st1"
    by (rule example_searched_ply_begin) simp
  have 3: "search (game ?st1) = Some ?s"
    by (simp add: example_searched_def example_options_def)
  have 4: "enable_resign example_args"
    by (simp add: example_args_def)
  have 5: "ResignWDLStyle (uci (game ?st1) (idx_of (blacks_move ?st)))"
    by (simp add: example_searched_def fixture_defs)
  have 6: "ResignEarliestMove (uci (game ?st1) (idx_of (blacks_move ?st)))
             \<le> move_number_of ?env (game ?st1)"
    by (simp add: example_searched_def fixture_defs)
  have 7: "flt (fsub (Finite 1)
                 (fdiv (ResignPercentage (uci (game ?st1) (idx_of (blacks_move ?st)))) (Finite 100)))
               (fdiv (fsub (fadd (fst (best_eval ?s)) (Finite 1)) (snd (best_eval ?s))) (Finite 2))"
    using wdl_numbers by (simp add: example_searched_def fixture_defs)
  have 8: "win_for_mover (blacks_move ?st) = WHITE_WON"
    by (simp add: fixture_defs)
  from wdl_resign [OF 1 2 3 4 5 6, unfolded Let_def] 7 8
  have "Play_stops_with ?env example_args (\<lambda>n. None) None ?g WHITE_WON ?st1"
    by simp
  moreover have "heap (game ?st1) = (\<lambda>a. [])"
    by (simp add: example_searched_def fixture_defs)
  ultimately show ?thesis
    by (simp add: Play_stops_with_def split: option.splits sum.splits)
qed




subsection \<open>The retry loop\<close>

lemma scan_edges_snoc:
  "scan_edges (edges @ [e]) move =
     (max (fst (scan_edges edges move)) (snd e),
      if fst e = move then snd e else snd (scan_edges edges move))"
  by (cases e) (auto simp: scan_edges_def max_def split: prod.split)

text \<open>
  \<open>max_n\<close> is the largest visit count of an edge of the head (0 without edges), and
  \<open>cur_n\<close> is the count of the last edge that carries the move (0 when none does).
\<close>

lemma scan_edges_max: "fst (scan_edges edges move) = max_visits edges"
  unfolding max_visits_def
proof (induction edges rule: rev_induct)
  case Nil
  show ?case by (simp add: scan_edges_def)
next
  case (snoc e edges)
  have eq: "insert 0 (snd ` set (edges @ [e])) = insert (snd e) (insert 0 (snd ` set edges))"
    by auto
  have "Max (insert 0 (snd ` set (edges @ [e]))) = max (snd e) (Max (insert 0 (snd ` set edges)))"
    unfolding eq by (rule Max_insert) simp_all
  with snoc show ?case by (simp add: scan_edges_snoc max.commute)
qed

lemma scan_edges_cur: "snd (scan_edges edges move) = visits_of edges move"
  unfolding visits_of_def
proof (induction edges rule: rev_induct)
  case Nil
  show ?case by (simp add: scan_edges_def)
next
  case (snoc e edges)
  then show ?case by (simp add: scan_edges_snoc)
qed

text \<open>
  One iteration accepts the move of the search when its count equals the maximum or
  when its count, read as a signed 32-bit integer, is at least the configured minimum;
  otherwise it reports the discarded move (when the position after it is undecided),
  resets the best move of the search and asks for another iteration.
\<close>

lemma retry_iter_cases:
  assumes "search g = Some s"
  shows "retry_iter env idx g =
     (if visits_of (head_edges env g idx) (GetBestMove s) = max_visits (head_edges env g idx)
         \<or> MinimumAllowedVisits (uci g idx) \<le> sint (visits_of (head_edges env g idx) (GetBestMove s))
      then Accept (GetBestMove s)
      else Retry (discard env idx g s))"
  using assms
  by (simp add: retry_iter_def head_edges_def discard_def Let_def scan_edges_max scan_edges_cur)

lemma sint_small:
  assumes "unat (n :: 32 word) < 2 ^ 31"
  shows "sint n = int (unat n)"
proof -
  from assms have "int (unat n) < int (2 ^ 31)"
    by (simp only: of_nat_less_iff)
  then have "uint n < 2 ^ 31"
    by simp
  moreover have "- (2 ^ 31) \<le> uint n"
    by (rule order_trans [of _ 0]) simp_all
  ultimately have "signed_take_bit 31 (uint n) = uint n"
    by (intro signed_take_bit_int_eq_self) simp_all
  then show ?thesis
    by (simp add: sint_uint)
qed

text \<open>
  On a head whose counts fit, a move with a count of \<open>2 ^ 31\<close> or more has the largest
  count: another edge with a larger count would bring the sum to \<open>2 ^ 32\<close> or more.
\<close>

lemma two_members_sum:
  fixes f :: "'a \<Rightarrow> nat"
  assumes "a \<in> set xs" and "b \<in> set xs" and "a \<noteq> b"
  shows "f a + f b \<le> sum_list (map f xs)"
proof -
  from assms have "b \<in> set (remove1 a xs)" by simp
  then have "f b \<in> set (map f (remove1 a xs))" by simp
  then have "f b \<le> sum_list (map f (remove1 a xs))" by (intro member_le_sum_list) simp_all
  with sum_list_map_remove1 [OF assms(1), of f] show ?thesis by simp
qed

lemma find_Some_member: "find P xs = Some x \<Longrightarrow> x \<in> set xs"
  by (induction xs) (auto split: if_splits)

lemma visits_of_member:
  assumes "visits_of edges m \<noteq> 0"
  shows "\<exists>e \<in> set edges. snd e = visits_of edges m"
proof -
  from assms obtain e where "find (\<lambda>e. fst e = m) (rev edges) = Some e"
    and "snd e = visits_of edges m"
    by (auto simp: visits_of_def split: option.splits)
  with find_Some_member [of "\<lambda>e. fst e = m" "rev edges" e] show ?thesis
    by auto
qed

lemma max_visits_member:
  "max_visits edges = 0 \<or> (\<exists>e \<in> set edges. snd e = max_visits edges)"
proof -
  have "Max (insert 0 (snd ` set edges)) \<in> insert 0 (snd ` set edges)"
    by (rule Max_in) simp_all
  then show ?thesis unfolding max_visits_def by fastforce
qed

lemma max_visits_ge: "e \<in> set edges \<Longrightarrow> snd e \<le> max_visits edges"
  by (simp add: max_visits_def)

lemma large_count_is_max:
  assumes fit: "counts_fit edges" and large: "\<not> unat (visits_of edges m) < 2 ^ 31"
  shows "visits_of edges m = max_visits edges"
proof (rule ccontr)
  assume differ: "visits_of edges m \<noteq> max_visits edges"
  from large have "visits_of edges m \<noteq> 0" by auto
  from visits_of_member [OF this] obtain e where e: "e \<in> set edges" "snd e = visits_of edges m"
    by blast
  from max_visits_ge [OF e(1)] e(2) differ have less: "visits_of edges m < max_visits edges"
    by simp
  then have "max_visits edges \<noteq> 0" by (auto simp: word_less_nat_alt)
  with max_visits_member [of edges] obtain e' where e': "e' \<in> set edges" "snd e' = max_visits edges"
    by blast
  from e e' differ have "e \<noteq> e'" by auto
  from two_members_sum [OF e(1) e'(1) this, of "\<lambda>e. unat (snd e)"] fit
  have "unat (visits_of edges m) + unat (max_visits edges) < 2 ^ 32"
    by (simp add: counts_fit_def e e')
  moreover from less have "unat (visits_of edges m) < unat (max_visits edges)"
    by (simp add: word_less_nat_alt)
  ultimately show False using large by simp
qed

lemma accept_on_fitting_counts:
  assumes "counts_fit edges"
  shows "(visits_of edges m = max_visits edges \<or> k \<le> sint (visits_of edges m))
     \<longleftrightarrow> (visits_of edges m = max_visits edges \<or> k \<le> int (unat (visits_of edges m)))"
proof (cases "unat (visits_of edges m) < 2 ^ 31")
  case True
  then show ?thesis by (simp add: sint_small)
next
  case False
  from large_count_is_max [OF assms this] show ?thesis by simp
qed

lemma retry_loop_rule:
  assumes "search g = Some s" and "counts_fit (head_edges env g idx)"
  shows "retry_loop env idx g =
     (if visits_of (head_edges env g idx) (GetBestMove s) = max_visits (head_edges env g idx)
         \<or> MinimumAllowedVisits (uci g idx) \<le> int (unat (visits_of (head_edges env g idx) (GetBestMove s)))
      then Some (Inr (GetBestMove s, g))
      else retry_loop env idx (discard env idx g s))"
  by (subst retry_loop.simps)
    (simp add: retry_iter_cases [OF assms(1)] accept_on_fitting_counts [OF assms(2)])

lemma ply_select_rule:
  assumes "search g = Some s" and "counts_fit (head_edges env g (idx_of (blacks_move st)))"
  shows "ply_select env st g =
     (if visits_of (head_edges env g (idx_of (blacks_move st))) (GetBestMove s)
           = max_visits (head_edges env g (idx_of (blacks_move st)))
         \<or> MinimumAllowedVisits (uci g (idx_of (blacks_move st)))
             \<le> int (unat (visits_of (head_edges env g (idx_of (blacks_move st))) (GetBestMove s)))
      then (case ply_commit env st g s of
              Inl e \<Rightarrow> Some (Inl e)
            | Inr st' \<Rightarrow> Some (Inr (Continue st')))
      else ply_select env st (discard env (idx_of (blacks_move st)) g s))"
  using assms(1)
  by (simp add: ply_select_def [of env st g] ply_select_def [of env st "discard env (idx_of (blacks_move st)) g s"]
      retry_loop_rule [OF assms])

lemma play_ply_retry:
  assumes "ply_begin env args ev st = Continue st1"
    and "search (game st1) = Some s1"
    and "resignation env args st1 s1 = None"
  shows "play_ply env args ev st = ply_select env (after_search ev st1) (retry_start env args ev st1)"
proof -
  let ?st2 = "after_search ev st1"
  note same = ply_begin_Continue(2) [OF assms(1)]
  from resign_check_after_search [OF assms(1,2)] assms(3) same
  obtain s2 where s2: "search (game ?st2) = Some s2"
    and rc: "resign_check (uci (game ?st2) (idx_of (blacks_move ?st2)))
          (enable_resign args) (move_number_of env (game ?st2)) (blacks_move ?st2)
          (eval_of (best_eval s2)) (best_w_of (best_eval s2)) (snd (best_eval s2))
          (best_l_of (best_eval s2)) = None"
    by (auto simp: resignation_def)
  show ?thesis
    using s2
    by (simp add: play_ply_after_search [OF assms(1)] ply_finish_no_resign [OF s2 rc]
        retry_start_def after_search_fields)
qed

lemma play_ply_abort_before_lock:
  assumes "ply_head env st = Continue g1"
  shows "play_ply env args (Some BeforeLock) st = Some (Inr (Break (st\<lparr>game := Abort g1\<rparr>)))"
  using assms by (simp add: play_ply_def ply_begin_def Let_def Abort_fields)

text \<open>
  C2. \<^verbatim>\<open>Play\<close> is in iteration \<open>n\<close> of its ply loop and the iteration has passed line
  228 and does not resign: then what \<^verbatim>\<open>Play\<close> returns is decided by the retry loop and
  the commit that follows it. In every state of the retry loop with a search and a head
  whose visit counts fit: the best move of the search is accepted, and committed as the
  search has it, exactly when its visit count equals the maximum visit count over the
  edges of the head or is at least the minimum of allowed visits of the side;
  otherwise the loop goes on from the state in which the discarded-move callback has
  been called with the moves of the game followed by the candidate (when the position
  after the candidate is not terminal) and the best move of the search has been reset.
\<close>

theorem minimum_visit_retry:
  assumes "in_Play env args aborts opening g0 n st"
    and "ply_begin env args (aborts n) st = Continue st1"
    and "search (game st1) = Some s1"
    and "resignation env args st1 s1 = None"
  shows "Play env args aborts opening g0 =
           Play_after env args aborts n
             (ply_select env (after_search (aborts n) st1) (retry_start env args (aborts n) st1))
       \<and> (\<forall>g s. search g = Some s \<and> counts_fit (head_edges env g (idx_of (blacks_move st))) \<longrightarrow>
            (let idx = idx_of (blacks_move st);
                 move = GetBestMove s;
                 edges = head_edges env g idx;
                 accepted = (visits_of edges move = max_visits edges \<or>
                             MinimumAllowedVisits (uci g idx) \<le> int (unat (visits_of edges move)))
             in retry_loop env idx g =
                  (if accepted then Some (Inr (move, g))
                   else retry_loop env idx (discard env idx g s)) \<and>
                ply_select env (after_search (aborts n) st1) g =
                  (if accepted
                   then (case ply_commit env (after_search (aborts n) st1) g s of
                           Inl e \<Rightarrow> Some (Inl e)
                         | Inr st' \<Rightarrow> Some (Inr (Continue st')))
                   else ply_select env (after_search (aborts n) st1) (discard env idx g s))))"
proof (intro conjI allI impI)
  show "Play env args aborts opening g0 =
           Play_after env args aborts n
             (ply_select env (after_search (aborts n) st1) (retry_start env args (aborts n) st1))"
    by (simp add: Play_enters [OF assms(1)] play_ply_retry [OF assms(2-4)])
next
  fix g s
  assume gs: "search g = Some s \<and> counts_fit (head_edges env g (idx_of (blacks_move st)))"
  have same: "blacks_move (after_search (aborts n) st1) = blacks_move st"
    by (simp add: after_search_fields ply_begin_Continue(2) [OF assms(2)])
  from gs have fit: "counts_fit (head_edges env g (idx_of (blacks_move (after_search (aborts n) st1))))"
    by (simp add: same)
  from gs have s: "search g = Some s" by simp
  show "let idx = idx_of (blacks_move st);
            move = GetBestMove s;
            edges = head_edges env g idx;
            accepted = (visits_of edges move = max_visits edges \<or>
                        MinimumAllowedVisits (uci g idx) \<le> int (unat (visits_of edges move)))
        in retry_loop env idx g =
             (if accepted then Some (Inr (move, g))
              else retry_loop env idx (discard env idx g s)) \<and>
           ply_select env (after_search (aborts n) st1) g =
             (if accepted
              then (case ply_commit env (after_search (aborts n) st1) g s of
                      Inl e \<Rightarrow> Some (Inl e)
                    | Inr st' \<Rightarrow> Some (Inr (Continue st')))
              else ply_select env (after_search (aborts n) st1) (discard env idx g s))"
    unfolding Let_def
    using retry_loop_rule [OF s, of env "idx_of (blacks_move st)"] gs
      ply_select_rule [OF s fit] 
    by (simp add: same)
qed

text \<open>
  The retry example of the specification. The head has the edges e2e4 with 2 visits
  and b1c3 with 10 visits and the minimum of allowed visits is 5. The first move of the
  search, e2e4, is below the maximum and below the minimum: the callback is called once
  with e2e4 and the best move is reset once; the second move, b1c3, has the maximum and
  is committed on both trees. A call of \<^verbatim>\<open>Abort()\<close> in the second iteration then ends
  \<^verbatim>\<open>Play\<close>.
\<close>

theorem minimum_visit_retry_witness:
  "(case Play (toy low_edges 0 0) example_args (\<lambda>n. if n = 1 then Some BeforeLock else None) None
          (example_game low_edges 0 0
             (example_options 0 False 5 False) (example_options 0 False 5 False)) of
      Some (Inr g') \<Rightarrow>
        heap g' 0 = [mv (sq 0 1) (sq 2 2)] \<and> heap g' 1 = [mv (sq 0 1) (sq 2 2)] \<and>
        discarded_calls g' = [(0, [mv (sq 1 4) (sq 3 4)])] \<and>
        map_option resets (search g') = Some 1
    | _ \<Rightarrow> False)"
proof -
  let ?env = "toy low_edges 0 0"
  let ?p = "example_options 0 False 5 False"
  let ?g0 = "example_game low_edges 0 0 ?p ?p"
  let ?aborts = "\<lambda>n :: nat. if n = 1 then Some BeforeLock else None"
  let ?st = "Play_start ?env None ?g0"
  let ?st1 = "example_searched low_edges 0 0 ?p ?p"
  let ?s1 = "(example_search 0 0)\<lparr>total_playouts := 12\<rparr>"
  let ?g2 = "retry_start ?env example_args None ?st1"
  let ?g3 = "discard ?env 0 ?g2 ?s1"
  let ?st' = "\<lparr>game = MakeMove_both ?env ?g3 (mv (sq 0 1) (sq 2 2)),
               blacks_move = True, openingMove = []\<rparr>"
  have 1: "in_Play ?env example_args ?aborts None ?g0 0 ?st"
    by (rule example_in_Play)
  have 2: "ply_begin ?env example_args (?aborts 0) ?st = Continue ?st1"
    using example_searched_ply_begin [of None low_edges 0 0 ?p ?p] by simp
  have 3: "search (game ?st1) = Some ?s1"
    by (simp add: example_searched_def example_options_def)
  have 4: "resignation ?env example_args ?st1 ?s1 = None"
    by (simp add: resignation_def resign_check_def eval_of_def play_defs plain_numbers)
  note retry = minimum_visit_retry [OF 1 2 3 4]
  have white: "\<not> blacks_move ?st" "after_search (?aborts 0) ?st1 = ?st1"
    by (simp_all add: fixture_defs after_search_def)
  have g2: "search ?g2 = Some ?s1 \<and> counts_fit (head_edges ?env ?g2 (idx_of (blacks_move ?st)))"
    by (simp add: play_defs)
  have first: "ply_select ?env ?st1 ?g2 = ply_select ?env ?st1 ?g3"
    using retry [THEN conjunct2, rule_format, OF g2, unfolded Let_def, THEN conjunct2] white
    by (simp add: play_defs)
  have g3: "search ?g3 = Some (ResetBestMove ?s1)
              \<and> counts_fit (head_edges ?env ?g3 (idx_of (blacks_move ?st)))"
    by (simp add: play_defs)
  have second: "ply_select ?env ?st1 ?g3 = Some (Inr (Continue ?st'))"
    using retry [THEN conjunct2, rule_format, OF g3, unfolded Let_def, THEN conjunct2] white
    by (simp add: play_defs)
  have "Play ?env example_args ?aborts None ?g0 =
          Play_end (Play_loop ?env example_args ?aborts 1 ?st')"
    using retry [THEN conjunct1] first second white by (simp add: Play_after_def)
  moreover from toy_head [of low_edges 0 0 ?st'] obtain g1
    where head: "ply_head ?env ?st' = Continue g1"
      and g1: "heap g1 = heap (game ?st')" "discarded_calls g1 = discarded_calls (game ?st')"
        "search g1 = search (game ?st')"
    by blast
  have "\<not> abort (game ?st')"
    by (simp add: play_defs)
  then have "Play_loop ?env example_args ?aborts 1 ?st' = Some (Inr (?st'\<lparr>game := Abort g1\<rparr>))"
    by (subst Play_loop.simps) (simp add: play_ply_abort_before_lock [OF head])
  ultimately have "Play ?env example_args ?aborts None ?g0 = Some (Inr (Abort g1))"
    by (simp add: Play_end_def)
  moreover have "heap (Abort g1) 0 = [mv (sq 0 1) (sq 2 2)]" "heap (Abort g1) 1 = [mv (sq 0 1) (sq 2 2)]"
    "discarded_calls (Abort g1) = [(0, [mv (sq 1 4) (sq 3 4)])]"
    "map_option resets (search (Abort g1)) = Some 1"
    by (simp_all add: g1 play_defs Search_Abort_def)
  ultimately show ?thesis by simp
qed
subsection \<open>A call of \<^verbatim>\<open>Abort()\<close> and the reads of the flag\<close>

lemma GetMoves_frame:
  "GetMoves env (g\<lparr>search := x\<rparr>) = GetMoves env g"
  "GetMoves env (g\<lparr>abort := b\<rparr>) = GetMoves env g"
  by (simp_all add: GetMoves_def tree_at_def)

lemma retry_iter_Abort:
  "retry_iter env idx (Abort g) = map_retry Abort (retry_iter env idx g)"
proof (cases "search g")
  case None
  then show ?thesis by (simp add: retry_iter_def Abort_alt)
next
  case (Some s)
  then show ?thesis
    by (simp add: retry_iter_def GetMoves_frame Abort_alt tree_at_def uci_def Let_def
        GetBestMove_def Search_Abort_def ResetBestMove_def)
qed

lemma retry_loop_Abort_Some:
  assumes "retry_loop env idx g = Some r"
  shows "retry_loop env idx (Abort g) = Some (map_sum id (apsnd Abort) r)"
proof (rule retry_loop.raw_induct
    [where P = "\<lambda>env idx g r. retry_loop env idx (Abort g) = Some (map_sum id (apsnd Abort) r)",
      OF _ assms])
  fix loop :: "('a, 'c, 'd, 'b) collab \<Rightarrow> nat \<Rightarrow> ('a, 'b) SelfPlayGame \<Rightarrow> (error + Move \<times> ('a, 'b) SelfPlayGame) option"
    and env idx g r
  assume IH: "\<And>e i g y. loop e i g = Some y \<Longrightarrow>
                retry_loop e i (Abort g) = Some (map_sum id (apsnd Abort) y)"
    and body: "(case retry_iter env idx g of
                  Accept move \<Rightarrow> Some (Inr (move, g))
                | Retry g' \<Rightarrow> loop env idx g'
                | Fault e \<Rightarrow> Some (Inl e)) = Some r"
  show "retry_loop env idx (Abort g) = Some (map_sum id (apsnd Abort) r)"
  proof (cases "retry_iter env idx g")
    case (Accept m)
    with body show ?thesis
      by (subst retry_loop.simps) (auto simp: retry_iter_Abort)
  next
    case (Retry g')
    with body have "loop env idx g' = Some r" by simp
    from IH [OF this] Retry show ?thesis
      by (subst retry_loop.simps) (simp add: retry_iter_Abort)
  next
    case (Fault e)
    with body show ?thesis
      by (subst retry_loop.simps) (auto simp: retry_iter_Abort)
  qed
qed

lemma retry_loop_Abort_ends:
  assumes "retry_loop env idx (Abort g) = Some z"
  shows "\<exists>r. retry_loop env idx g = Some r"
proof -
  have "\<forall>g0. Abort g = Abort g0 \<longrightarrow> (\<exists>r. retry_loop env idx g0 = Some r)"
  proof (rule retry_loop.raw_induct
      [where P = "\<lambda>env idx a z. \<forall>g0. a = Abort g0 \<longrightarrow> (\<exists>r. retry_loop env idx g0 = Some r)",
        OF _ assms])
    fix loop :: "('a, 'c, 'd, 'b) collab \<Rightarrow> nat \<Rightarrow> ('a, 'b) SelfPlayGame \<Rightarrow> (error + Move \<times> ('a, 'b) SelfPlayGame) option"
      and env idx a z
    assume IH: "\<And>e i a y. loop e i a = Some y \<Longrightarrow>
                  \<forall>g0. a = Abort g0 \<longrightarrow> (\<exists>r. retry_loop e i g0 = Some r)"
      and body: "(case retry_iter env idx a of
                    Accept move \<Rightarrow> Some (Inr (move, a))
                  | Retry g' \<Rightarrow> loop env idx g'
                  | Fault e \<Rightarrow> Some (Inl e)) = Some z"
    show "\<forall>g0. a = Abort g0 \<longrightarrow> (\<exists>r. retry_loop env idx g0 = Some r)"
    proof (intro allI impI)
      fix g0
      assume a: "a = Abort g0"
      show "\<exists>r. retry_loop env idx g0 = Some r"
      proof (cases "retry_iter env idx g0")
        case (Accept m)
        then show ?thesis by (subst retry_loop.simps) simp
      next
        case (Retry g')
        with body a have "loop env idx (Abort g') = Some z"
          by (simp add: retry_iter_Abort)
        from IH [OF this] Retry show ?thesis
          by (subst retry_loop.simps) simp
      next
        case (Fault e)
        then show ?thesis by (subst retry_loop.simps) simp
      qed
    qed
  qed
  then show ?thesis by simp
qed

text \<open>
  The retry loop does not read the flag: after \<^verbatim>\<open>Abort()\<close> it runs through the same
  iterations, ends or fails to end as before, and accepts the same move.
\<close>

lemma retry_loop_Abort:
  "retry_loop env idx (Abort g) = map_option (map_sum id (apsnd Abort)) (retry_loop env idx g)"
proof (cases "retry_loop env idx g")
  case None
  have "retry_loop env idx (Abort g) = None"
  proof (rule ccontr)
    assume "retry_loop env idx (Abort g) \<noteq> None"
    then obtain z where "retry_loop env idx (Abort g) = Some z" by auto
    from retry_loop_Abort_ends [OF this] None show False by simp
  qed
  with None show ?thesis by simp
next
  case (Some r)
  then show ?thesis by (simp add: retry_loop_Abort_Some)
qed

lemma note_eval_Abort:
  "note_eval env args b (Abort g) (Search_Abort s) = Abort (note_eval env args b g s)"
  by (simp add: note_eval_def Abort_alt Let_def tree_at_def Search_Abort_def split: prod.split)

lemma MakeMove_both_Abort:
  "MakeMove_both env (Abort g) m = Abort (MakeMove_both env g m)"
  by (simp add: MakeMove_both_def Abort_alt tree_update_def tree_at_def Let_def)

lemma ply_commit_Abort:
  "ply_commit env (aborted st) (Abort g) (Search_Abort s)
     = map_sum id aborted (ply_commit env st g s)"
  by (simp add: ply_commit_def inBook_def aborted_def Let_def MakeMove_both_Abort Abort_fields
      tree_at_def GetBestMove_def Search_Abort_def split: list.split sum.split)

lemma set_result_Abort:
  "(Abort g)\<lparr>game_result := r\<rparr> = Abort (g\<lparr>game_result := r\<rparr>)"
  by (simp add: Abort_alt)

lemma ply_select_Abort:
  "ply_select env (aborted st) (Abort g)
     = map_option (map_sum id (map_step aborted)) (ply_select env st g)"
proof (cases "retry_loop env (idx_of (blacks_move st)) g")
  case None
  then show ?thesis
    by (simp add: ply_select_def aborted_def retry_loop_Abort)
next
  case (Some res)
  show ?thesis
  proof (cases res)
    case (Inl e)
    with Some show ?thesis
      by (simp add: ply_select_def aborted_def retry_loop_Abort)
  next
    case (Inr accepted)
    obtain move g2 where acc: "accepted = (move, g2)" by (cases accepted)
    show ?thesis
    proof (cases "search g2")
      case None
      with acc Inr Some show ?thesis
        by (simp add: ply_select_def aborted_def retry_loop_Abort Abort_fields)
    next
      case s2: (Some s2)
      with acc Inr Some ply_commit_Abort [of env st g2 s2] show ?thesis
        by (simp add: ply_select_def retry_loop_Abort Abort_fields aborted_def [of st]
            split: sum.split)
    qed
  qed
qed

lemma ply_finish_Abort:
  "ply_finish env args (aborted st)
     = map_option (map_sum id (map_step aborted)) (ply_finish env args st)"
proof (cases "search (game st)")
  case None
  then show ?thesis
    by (simp add: ply_finish_def aborted_def Abort_fields)
next
  case (Some s)
  let ?g = "note_eval env args (blacks_move st) (game st) s"
  let ?idx = "idx_of (blacks_move st)"
  have pre: "uci (Abort ?g) ?idx = uci ?g ?idx" "tree_at (Abort (game st)) 0 = tree_at (game st) 0"
    "best_eval (Search_Abort s) = best_eval s"
    by (simp_all add: uci_def tree_at_def Abort_fields Search_Abort_def)
  show ?thesis
  proof (cases "resign_check (uci ?g ?idx) (enable_resign args)
      (int (GetLength env (GetPositionHistory env (tree_at (game st) 0)) div 2) + 1)
      (blacks_move st) (eval_of (best_eval s)) (best_w_of (best_eval s)) (snd (best_eval s))
      (best_l_of (best_eval s))")
    case r: (Some r)
    with Some show ?thesis
      by (simp add: ply_finish_def Let_def aborted_def Abort_fields note_eval_Abort pre
          set_result_Abort)
  next
    case None
    with Some ply_select_Abort [of env st ?g] show ?thesis
      by (simp add: ply_finish_def Let_def aborted_def Abort_fields note_eval_Abort pre)
  qed
qed

lemma Play_loop_aborted:
  "Play_loop env args aborts n (aborted st) = Some (Inr (aborted st))"
  by (subst Play_loop.simps) (simp add: aborted_def Abort_fields)

lemma play_ply_head_break:
  assumes "ply_head env st = Break g1"
  shows "play_ply env args ev st = Some (Inr (Break (st\<lparr>game := g1\<rparr>)))"
  using assms by (simp add: play_ply_def ply_begin_def)

lemma ply_begin_after_search:
  "ply_begin env args (Some AfterSearch) st = ply_begin env args None st"
  by (cases "ply_head env st") (simp_all add: ply_begin_def)

lemma play_ply_abort_during_search:
  assumes "ply_begin env args None st = Continue st1"
  shows "play_ply env args (Some DuringSearch) st = Some (Inr (Break (aborted st1)))"
proof (cases "ply_head env st")
  case (Break g1)
  with assms show ?thesis by (simp add: ply_begin_def)
next
  case (Continue g1)
  with assms show ?thesis
    by (auto simp: play_ply_def ply_begin_def Let_def aborted_def Abort_alt tree_update_def
        split: if_splits)
qed

lemma play_ply_abort_after_search:
  assumes "ply_begin env args None st = Continue st1"
  shows "play_ply env args (Some AfterSearch) st
           = map_option (map_sum id (map_step aborted)) (play_ply env args None st)"
proof -
  from assms have "play_ply env args (Some AfterSearch) st = ply_finish env args (aborted st1)"
    by (simp add: play_ply_def ply_begin_after_search aborted_def)
  moreover from assms have "play_ply env args None st = ply_finish env args st1"
    by (simp add: play_ply_def)
  ultimately show ?thesis
    by (simp add: ply_finish_Abort)
qed

lemma Play_start_Abort: "Play_start env opening (Abort g) = aborted (Play_start env opening g)"
  by (simp add: Play_start_def aborted_def tree_at_def Abort_fields)

lemma Play_aborted: "Play env args aborts opening (Abort g) = Some (Inr (Abort g))"
  by (simp add: Play_def Play_start_Abort Play_loop_aborted Play_end_def)
    (simp add: aborted_def Play_start_def)

text \<open>
  The first iteration of a game of the small implementation with a minimum of 0 allowed
  visits: the first move of the search, e2e4, is accepted at once and committed.
\<close>

lemma example_first_ply:
  "play_ply (toy low_edges 0 0) example_args None
     (Play_start (toy low_edges 0 0) None
        (example_game low_edges 0 0 (example_options 0 False 0 c1) (example_options 0 False 0 c2)))
   = Some (Inr (Continue
       \<lparr>game = MakeMove_both (toy low_edges 0 0)
                 (retry_start (toy low_edges 0 0) example_args None
                    (example_searched low_edges 0 0
                       (example_options 0 False 0 c1) (example_options 0 False 0 c2)))
                 (mv (sq 1 4) (sq 3 4)),
        blacks_move = True, openingMove = []\<rparr>))"
proof -
  let ?env = "toy low_edges 0 0"
  let ?p1 = "example_options 0 False 0 c1"
  let ?p2 = "example_options 0 False 0 c2"
  let ?st = "Play_start ?env None (example_game low_edges 0 0 ?p1 ?p2)"
  let ?st1 = "example_searched low_edges 0 0 ?p1 ?p2"
  let ?s1 = "(example_search 0 0)\<lparr>total_playouts := (if c1 \<or> c2 then 13 else 12)\<rparr>"
  let ?g2 = "retry_start ?env example_args None ?st1"
  have 2: "ply_begin ?env example_args None ?st = Continue ?st1"
    by (rule example_searched_ply_begin) simp
  have 3: "search (game ?st1) = Some ?s1"
    by (simp add: example_searched_def example_options_def)
  have g2: "search ?g2 = Some ?s1" "counts_fit (head_edges ?env ?g2 (idx_of (blacks_move ?st1)))"
    by (simp_all add: play_defs)
  have "play_ply ?env example_args None ?st = ply_select ?env ?st1 ?g2"
    using play_ply_retry [OF 2 3 example_no_resignation] by (simp add: after_search_def)
  also have "\<dots> = Some (Inr (Continue
       \<lparr>game = MakeMove_both ?env ?g2 (mv (sq 1 4) (sq 3 4)),
        blacks_move = True, openingMove = []\<rparr>))"
    by (simp add: ply_select_rule [OF g2]) (simp add: play_defs)
  finally show ?thesis .
qed

text \<open>
  C3, as the code has it. \<^verbatim>\<open>Play\<close> reads the abort flag at three places. Under the
  lock: a call of \<^verbatim>\<open>Abort()\<close> before the lock is taken ends the iteration there, with
  no search built and no move made. After the search: a call while the search runs ends
  the iteration right after the search, with no move made. At the head of the ply loop:
  once the flag is set the loop, and \<^verbatim>\<open>Play\<close>, return at once. No iteration of the
  retry loop reads the flag: after \<^verbatim>\<open>Abort()\<close> an iteration accepts, retries or fails
  as before and the loop ends, or fails to end, with the same move; so a call of
  \<^verbatim>\<open>Abort()\<close> that falls after line 228 leaves the rest of the iteration as it is
  without the call, retries and committed move included, up to the flag and the stop
  request of the search.
\<close>

theorem abort_flag_reads:
  "(ply_head env st = Continue g1 \<longrightarrow>
      play_ply env args (Some BeforeLock) st = Some (Inr (Break (st\<lparr>game := Abort g1\<rparr>))))
   \<and> (ply_begin env args None st = Continue st1 \<longrightarrow>
      play_ply env args (Some DuringSearch) st = Some (Inr (Break (aborted st1))))
   \<and> (ply_begin env args None st = Continue st1 \<longrightarrow>
      play_ply env args (Some AfterSearch) st
        = map_option (map_sum id (map_step aborted)) (play_ply env args None st))
   \<and> retry_iter env idx (Abort g) = map_retry Abort (retry_iter env idx g)
   \<and> retry_loop env idx (Abort g)
        = map_option (map_sum id (apsnd Abort)) (retry_loop env idx g)
   \<and> Play_loop env args aborts n (aborted st) = Some (Inr (aborted st))
   \<and> Play env args aborts opening (Abort g) = Some (Inr (Abort g))"
  by (intro conjI impI play_ply_abort_before_lock play_ply_abort_during_search
      play_ply_abort_after_search retry_iter_Abort retry_loop_Abort Play_loop_aborted Play_aborted)

text \<open>
  In the first iteration of a game with a minimum of 0 allowed visits: a call before
  the lock leaves no search and an empty tree; a call during the search leaves the
  stopped search and an empty tree; after a call that follows line 228 the iteration
  still commits e2e4 to both trees.
\<close>

theorem abort_flag_reads_witness:
  "(case play_ply (toy low_edges 0 0) example_args (Some BeforeLock)
          (Play_start (toy low_edges 0 0) None
             (example_game low_edges 0 0
                (example_options 0 False 0 False) (example_options 0 False 0 False))) of
      Some (Inr (Break st')) \<Rightarrow>
        abort (game st') \<and> search (game st') = None \<and> heap (game st') 0 = []
    | _ \<Rightarrow> False)
   \<and> (case play_ply (toy low_edges 0 0) example_args (Some DuringSearch)
          (Play_start (toy low_edges 0 0) None
             (example_game low_edges 0 0
                (example_options 0 False 0 False) (example_options 0 False 0 False))) of
      Some (Inr (Break st')) \<Rightarrow>
        abort (game st') \<and> map_option stop_requested (search (game st')) = Some True \<and>
        heap (game st') 0 = []
    | _ \<Rightarrow> False)
   \<and> (case play_ply (toy low_edges 0 0) example_args (Some AfterSearch)
          (Play_start (toy low_edges 0 0) None
             (example_game low_edges 0 0
                (example_options 0 False 0 False) (example_options 0 False 0 False))) of
      Some (Inr (Continue st')) \<Rightarrow>
        abort (game st') \<and> heap (game st') 0 = [mv (sq 1 4) (sq 3 4)] \<and>
        heap (game st') 1 = [mv (sq 1 4) (sq 3 4)] \<and> discarded_calls (game st') = []
    | _ \<Rightarrow> False)"
proof -
  let ?env = "toy low_edges 0 0"
  let ?p = "example_options 0 False 0 False"
  let ?g0 = "example_game low_edges 0 0 ?p ?p"
  let ?st = "Play_start ?env None ?g0"
  let ?st1 = "example_searched low_edges 0 0 ?p ?p"
  note reads = abort_flag_reads [of ?env ?st ?g0 example_args ?st1 0 ?g0 "\<lambda>n. None" 0 None]
  have head: "ply_head ?env ?st = Continue ?g0"
    by (rule example_head)
  have started: "ply_begin ?env example_args None ?st = Continue ?st1"
    by (rule example_searched_ply_begin) simp
  from reads head
  have "play_ply ?env example_args (Some BeforeLock) ?st
          = Some (Inr (Break (?st\<lparr>game := Abort ?g0\<rparr>)))"
    by simp
  then have a: "(case play_ply ?env example_args (Some BeforeLock) ?st of
      Some (Inr (Break st')) \<Rightarrow>
        abort (game st') \<and> search (game st') = None \<and> heap (game st') 0 = []
    | _ \<Rightarrow> False)"
    by (simp add: Abort_fields fixture_defs)
  from reads started
  have "play_ply ?env example_args (Some DuringSearch) ?st = Some (Inr (Break (aborted ?st1)))"
    by simp
  then have b: "(case play_ply ?env example_args (Some DuringSearch) ?st of
      Some (Inr (Break st')) \<Rightarrow>
        abort (game st') \<and> map_option stop_requested (search (game st')) = Some True \<and>
        heap (game st') 0 = []
    | _ \<Rightarrow> False)"
    by (simp add: aborted_def Abort_fields example_searched_def Search_Abort_def fixture_defs)
  from reads started
  have "play_ply ?env example_args (Some AfterSearch) ?st
          = map_option (map_sum id (map_step aborted)) (play_ply ?env example_args None ?st)"
    by simp
  then have c: "(case play_ply ?env example_args (Some AfterSearch) ?st of
      Some (Inr (Continue st')) \<Rightarrow>
        abort (game st') \<and> heap (game st') 0 = [mv (sq 1 4) (sq 3 4)] \<and>
        heap (game st') 1 = [mv (sq 1 4) (sq 3 4)] \<and> discarded_calls (game st') = []
    | _ \<Rightarrow> False)"
    by (simp add: example_first_ply) (simp add: play_defs)
  from a b c show ?thesis by (intro conjI)
qed

text \<open>
  C3 as stated fails. \<^verbatim>\<open>Abort()\<close> is called right after line 228 of the first
  iteration, so the flag is set when the retry loop begins. The first move of the
  search, e2e4, has 2 visits, below the maximum 10 and below the minimum 5. The loop
  still runs a retry iteration (one call of the discarded-move callback, one reset of
  the best move) and the iteration commits the second move, b1c3, before \<^verbatim>\<open>Play\<close>
  returns at the next loop head.
\<close>

theorem retry_and_commit_after_abort_counterexample:
  "abort (retry_start (toy low_edges 0 0) example_args (Some AfterSearch)
            (example_searched low_edges 0 0
               (example_options 0 False 5 False) (example_options 0 False 5 False)))
   \<and> (case Play (toy low_edges 0 0) example_args (\<lambda>n. if n = 0 then Some AfterSearch else None) None
          (example_game low_edges 0 0
             (example_options 0 False 5 False) (example_options 0 False 5 False)) of
      Some (Inr g') \<Rightarrow>
        abort g' \<and> heap g' 0 = [mv (sq 0 1) (sq 2 2)] \<and> heap g' 1 = [mv (sq 0 1) (sq 2 2)] \<and>
        discarded_calls g' = [(0, [mv (sq 1 4) (sq 3 4)])] \<and>
        map_option resets (search g') = Some 1
    | _ \<Rightarrow> False)"
proof
  let ?env = "toy low_edges 0 0"
  let ?p = "example_options 0 False 5 False"
  let ?g0 = "example_game low_edges 0 0 ?p ?p"
  let ?aborts = "\<lambda>n :: nat. if n = 0 then Some AfterSearch else None"
  let ?st = "Play_start ?env None ?g0"
  let ?st1 = "example_searched low_edges 0 0 ?p ?p"
  let ?s1 = "(example_search 0 0)\<lparr>total_playouts := 12\<rparr>"
  let ?g2 = "retry_start ?env example_args (Some AfterSearch) ?st1"
  let ?g3 = "discard ?env 0 ?g2 (Search_Abort ?s1)"
  let ?st' = "\<lparr>game = MakeMove_both ?env ?g3 (mv (sq 0 1) (sq 2 2)),
               blacks_move = True, openingMove = []\<rparr>"
  show flag: "abort ?g2"
    by (simp add: play_defs)
  have 1: "in_Play ?env example_args ?aborts None ?g0 0 ?st"
    by (rule example_in_Play)
  have 2: "ply_begin ?env example_args (Some AfterSearch) ?st = Continue ?st1"
    by (rule example_searched_ply_begin) simp
  have 3: "search (game ?st1) = Some ?s1"
    by (simp add: example_searched_def example_options_def)
  have 4: "resignation ?env example_args ?st1 ?s1 = None"
    using example_no_resignation [of low_edges 5 False False 12] by simp
  have aft: "after_search (Some AfterSearch) ?st1 = aborted ?st1"
    by (simp add: after_search_def)
  have g2: "search ?g2 = Some (Search_Abort ?s1)"
    "counts_fit (head_edges ?env ?g2 (idx_of (blacks_move (aborted ?st1))))"
    by (simp_all add: play_defs)
  have g3: "search ?g3 = Some (ResetBestMove (Search_Abort ?s1))"
    "counts_fit (head_edges ?env ?g3 (idx_of (blacks_move (aborted ?st1))))"
    by (simp_all add: play_defs)
  have "play_ply ?env example_args (Some AfterSearch) ?st = ply_select ?env (aborted ?st1) ?g2"
    using play_ply_retry [OF 2 3 4] by (simp add: aft)
  also have "\<dots> = ply_select ?env (aborted ?st1) ?g3"
    by (simp add: ply_select_rule [OF g2]) (simp add: play_defs Search_Abort_def)
  also have "\<dots> = Some (Inr (Continue ?st'))"
    by (simp add: ply_select_rule [OF g3]) (simp add: play_defs Search_Abort_def)
  finally have "Play ?env example_args ?aborts None ?g0
                  = Play_end (Play_loop ?env example_args ?aborts 1 ?st')"
    by (simp add: Play_enters [OF 1] Play_after_def)
  moreover have "abort (game ?st')"
    by (simp add: play_defs)
  then have "Play_loop ?env example_args ?aborts 1 ?st' = Some (Inr ?st')"
    by (subst Play_loop.simps) simp
  ultimately have "Play ?env example_args ?aborts None ?g0 = Some (Inr (game ?st'))"
    by (simp add: Play_end_def)
  moreover have "abort (game ?st')" "heap (game ?st') 0 = [mv (sq 0 1) (sq 2 2)]"
    "heap (game ?st') 1 = [mv (sq 0 1) (sq 2 2)]"
    "discarded_calls (game ?st') = [(0, [mv (sq 1 4) (sq 3 4)])]"
    "map_option resets (search (game ?st')) = Some 1"
    by (simp_all add: play_defs Search_Abort_def)
  ultimately show "(case Play ?env example_args ?aborts None ?g0 of
      Some (Inr g') \<Rightarrow>
        abort g' \<and> heap g' 0 = [mv (sq 0 1) (sq 2 2)] \<and> heap g' 1 = [mv (sq 0 1) (sq 2 2)] \<and>
        discarded_calls g' = [(0, [mv (sq 1 4) (sq 3 4)])] \<and>
        map_option resets (search g') = Some 1
    | _ \<Rightarrow> False)"
    by simp
qed
subsection \<open>The castling-notation flag\<close>





















end
